theory Spec2Isabelle
  imports Main
begin

section \<open>JavaScript string primitives used by the content script\<close>

text \<open>
  Strings are lists of 8-bit characters, read as code units below 256. Only the
  operations that \<^verbatim>\<open>src/js/content.js\<close> calls are modelled.
\<close>

definition is_space :: "char \<Rightarrow> bool" where
  \<comment> \<open>the white space and line terminators that \<^verbatim>\<open>String.prototype.trim\<close> strips\<close>
  "is_space c \<longleftrightarrow> (of_char c :: nat) \<in> {9, 10, 11, 12, 13, 32, 160}"

definition is_upper :: "char \<Rightarrow> bool" where
  \<comment> \<open>the class \<^verbatim>\<open>[A-Z]\<close>\<close>
  "is_upper c \<longleftrightarrow> 65 \<le> (of_char c :: nat) \<and> (of_char c :: nat) \<le> 90"

definition is_digit :: "char \<Rightarrow> bool" where
  \<comment> \<open>the class \<^verbatim>\<open>\d\<close> of a regular expression without the unicode flag\<close>
  "is_digit c \<longleftrightarrow> 48 \<le> (of_char c :: nat) \<and> (of_char c :: nat) \<le> 57"

definition trim :: "string \<Rightarrow> string" where
  "trim s = rev (dropWhile is_space (rev (dropWhile is_space s)))"

definition startsWith :: "string \<Rightarrow> string \<Rightarrow> bool" where
  \<comment> \<open>\<^verbatim>\<open>s.startsWith(p)\<close>\<close>
  "startsWith s p \<longleftrightarrow> take (length p) s = p"

definition endsWith :: "string \<Rightarrow> string \<Rightarrow> bool" where
  \<comment> \<open>\<^verbatim>\<open>s.endsWith(p)\<close>\<close>
  "endsWith s p \<longleftrightarrow> length p \<le> length s \<and> drop (length s - length p) s = p"

fun includes_str :: "string \<Rightarrow> string \<Rightarrow> bool" where
  \<comment> \<open>\<^verbatim>\<open>s.includes(p)\<close>: \<open>p\<close> occurs in \<open>s\<close> at some position\<close>
  "includes_str [] p = (p = [])"
| "includes_str (c # s) p = (startsWith (c # s) p \<or> includes_str s p)"

definition digit_char :: "nat \<Rightarrow> char" where
  "digit_char n = ''0123456789'' ! (n mod 10)"

function decimal :: "nat \<Rightarrow> string" where
  \<comment> \<open>the string a non-negative integer becomes when it is concatenated to a string\<close>
  "decimal n = (if n < 10 then [digit_char n] else decimal (n div 10) @ [digit_char n])"
  by pat_completeness auto
termination
  by (relation "measure id") auto

declare decimal.simps [simp del]

definition toLowerCase_char :: "char \<Rightarrow> char" where
  "toLowerCase_char c =
     (let n = (of_char c :: nat)
      in if (65 \<le> n \<and> n \<le> 90) \<or> (192 \<le> n \<and> n \<le> 222 \<and> n \<noteq> 215) then char_of (n + 32) else c)"

definition toLowerCase :: "string \<Rightarrow> string" where
  "toLowerCase s = map toLowerCase_char s"

definition replace_WIP :: "string \<Rightarrow> string" where
  \<comment> \<open>\<^verbatim>\<open>s.replace(new RegExp("^WIP:"), "")\<close>\<close>
  "replace_WIP s = (if startsWith s ''WIP:'' then drop 4 s else s)"

definition replace_bang :: "string \<Rightarrow> string" where
  \<comment> \<open>\<^verbatim>\<open>s.replace("!", "")\<close>: only the first occurrence goes\<close>
  "replace_bang s = remove1 (CHR ''!'') s"

definition quot :: string where
  \<comment> \<open>the double quote, as a string\<close>
  "quot = [CHR 0x22]"

definition string_of_bool :: "bool \<Rightarrow> string" where
  "string_of_bool b = (if b then ''true'' else ''false'')"

text \<open>
  The values a request body holds. A number is an integer here; \<^verbatim>\<open>parseInt\<close> yields
  \<^verbatim>\<open>NaN\<close> when the string starts with no digit. An object literal is the list of its
  properties in insertion order.
\<close>

datatype jvalue = JNumber int | JNaN | JString string

definition digit_value :: "char \<Rightarrow> int" where
  "digit_value c = int (of_char c) - 48"

definition parseInt :: "string \<Rightarrow> jvalue" where
  \<comment> \<open>\<^verbatim>\<open>parseInt(s, 10)\<close>: leading white space, a sign, then the longest run of digits\<close>
  "parseInt s =
     (let t = dropWhile is_space s;
          neg = (t \<noteq> [] \<and> hd t = CHR ''-'');
          u = (if t \<noteq> [] \<and> (hd t = CHR ''-'' \<or> hd t = CHR ''+'') then tl t else t);
          ds = takeWhile is_digit u;
          v = foldl (\<lambda>a c. 10 * a + digit_value c) 0 ds
      in if ds = [] then JNaN else JNumber (if neg then - v else v))"

fun assign :: "(string \<times> jvalue) list \<Rightarrow> string \<Rightarrow> jvalue \<Rightarrow> (string \<times> jvalue) list" where
  \<comment> \<open>setting one property of an object literal: an existing key keeps its place\<close>
  "assign [] k v = [(k, v)]"
| "assign ((k', v') # kvs) k v = (if k' = k then (k, v) # kvs else (k', v') # assign kvs k v)"

definition Object_assign :: "(string \<times> jvalue) list \<Rightarrow> (string \<times> jvalue) list \<Rightarrow> (string \<times> jvalue) list" where
  "Object_assign target source = foldl (\<lambda>acc (k, v). assign acc k v) target source"

section \<open>Records fetched from the API\<close>

text \<open>
  A record as the API returns it, with the fields the content script reads. \<open>author\<close>
  is the name held by the author object, \<open>None\<close> for a record whose author is
  \<^verbatim>\<open>null\<close>: reading \<^verbatim>\<open>mergeRequest.author.name\<close> then throws. Ids are
  non-negative integers, written in decimal when they meet a string.
\<close>

record merge_request =
  mr_id :: nat
  iid :: nat
  title :: string
  web_url :: string
  author :: "string option"
  state :: string
  source_branch :: string
  target_branch :: string
  work_in_progress :: bool

section \<open>Ticket identifiers\<close>

text \<open>
  \<^verbatim>\<open>new RegExp("[A-Z]{1,10}-\\d+").exec(s)\<close> looks for the leftmost position at which
  the pattern matches. At one position the greedy \<^verbatim>\<open>[A-Z]{1,10}\<close> first takes as many
  letters as it can, at most ten, and gives them back one at a time while the rest of the
  pattern (a hyphen, then greedily all the digits that follow) does not match.
\<close>

definition hyphen_digits :: "string \<Rightarrow> string option" where
  "hyphen_digits s =
     (case s of
        [] \<Rightarrow> None
      | c # t \<Rightarrow>
          if c = CHR ''-'' \<and> takeWhile is_digit t \<noteq> [] then Some (c # takeWhile is_digit t)
          else None)"

fun letters_back :: "nat \<Rightarrow> string \<Rightarrow> string option" where
  "letters_back 0 s = None"
| "letters_back (Suc k) s =
     (case hyphen_digits (drop (Suc k) s) of
        Some d \<Rightarrow> Some (take (Suc k) s @ d)
      | None \<Rightarrow> letters_back k s)"

definition match_at :: "string \<Rightarrow> string option" where
  "match_at s = letters_back (min 10 (length (takeWhile is_upper s))) s"

fun jiraTicketIdRegex_exec :: "string \<Rightarrow> string option" where
  "jiraTicketIdRegex_exec [] = match_at []"
| "jiraTicketIdRegex_exec (c # t) =
     (case match_at (c # t) of
        Some m \<Rightarrow> Some m
      | None \<Rightarrow> jiraTicketIdRegex_exec t)"

definition findFirstJiraTicketId :: "merge_request \<Rightarrow> string option" where
  "findFirstJiraTicketId mergeRequest =
     (case jiraTicketIdRegex_exec (source_branch mergeRequest) of
        Some r \<Rightarrow> Some r
      | None \<Rightarrow>
          (case jiraTicketIdRegex_exec (title mergeRequest) of
             Some r \<Rightarrow> Some r
           | None \<Rightarrow> None))"



section \<open>The page\<close>

text \<open>
  The document is the list of the list items the host page has rendered, in document
  order. A list item is described by what the selectors of the source can see of it: its
  own classes, whether it sits inside an element of class \<^verbatim>\<open>mr-list\<close>, its
  \<^verbatim>\<open>data-*\<close> attributes under their \<^verbatim>\<open>dataset\<close> names, and the tree of
  its child nodes. The classes \<^verbatim>\<open>merge-request\<close> and \<^verbatim>\<open>gl-list-item\<close> and
  the attribute \<^verbatim>\<open>data-testid\<close> are looked for on the list items themselves; items
  are not nested into one another.
\<close>

datatype node =
    Text string
  | Element string "string list" "(string \<times> string) list" "node list"

fun has_class :: "string \<Rightarrow> node \<Rightarrow> bool" where
  "has_class c (Text s) = False"
| "has_class c (Element tg cs as ks) = (c \<in> set cs)"

fun textContent :: "node \<Rightarrow> string" where
  "textContent (Text s) = s"
| "textContent (Element tg cs as ks) = concat (map textContent ks)"

fun elements :: "node \<Rightarrow> node list" where
  \<comment> \<open>an element and the elements below it, in document order\<close>
  "elements (Text s) = []"
| "elements (Element tg cs as ks) = Element tg cs as ks # concat (map elements ks)"

definition querySelectorAll :: "string \<Rightarrow> node list \<Rightarrow> node list" where
  \<comment> \<open>\<^verbatim>\<open>el.querySelectorAll("." + c)\<close> on an element with the child nodes \<open>ks\<close>\<close>
  "querySelectorAll c ks = filter (has_class c) (concat (map elements ks))"

fun querySelector :: "string \<Rightarrow> node list \<Rightarrow> node option" where
  \<comment> \<open>\<^verbatim>\<open>el.querySelector("." + c)\<close>: the first element of class \<open>c\<close> in document order\<close>
  "querySelector c [] = None"
| "querySelector c (Text s # ns) = querySelector c ns"
| "querySelector c (Element tg cs as ks # ns) =
     (if c \<in> set cs then Some (Element tg cs as ks)
      else case querySelector c ks of
             Some el \<Rightarrow> Some el
           | None \<Rightarrow> querySelector c ns)"

fun removeChild :: "string \<Rightarrow> node \<Rightarrow> node" where
  \<comment> \<open>every element of class \<open>c\<close> below the node is taken out of its parent\<close>
  "removeChild c (Text s) = Text s"
| "removeChild c (Element tg cs as ks) =
     Element tg cs as (map (removeChild c) (filter (\<lambda>k. \<not> has_class c k) ks))"

definition removeAll_class :: "string \<Rightarrow> node list \<Rightarrow> node list" where
  "removeAll_class c ks = map (removeChild c) (filter (\<lambda>k. \<not> has_class c k) ks)"

fun append_to_first :: "string \<Rightarrow> node list \<Rightarrow> node list \<Rightarrow> node list option" where
  \<comment> \<open>\<^verbatim>\<open>el.querySelector("." + c)\<close>, then the new nodes appended to the element found;
      \<open>None\<close> when there is no such element\<close>
  "append_to_first c new [] = None"
| "append_to_first c new (Text s # ns) = map_option ((#) (Text s)) (append_to_first c new ns)"
| "append_to_first c new (Element tg cs as ks # ns) =
     (if c \<in> set cs then Some (Element tg cs as (ks @ new) # ns)
      else case append_to_first c new ks of
             Some ks' \<Rightarrow> Some (Element tg cs as ks' # ns)
           | None \<Rightarrow> map_option ((#) (Element tg cs as ks)) (append_to_first c new ns))"

definition text_nodes :: "string \<Rightarrow> node list" where
  \<comment> \<open>the children a text leaves behind: none for the empty string\<close>
  "text_nodes s = (if s = [] then [] else [Text s])"

fun set_title_text :: "string \<Rightarrow> bool \<Rightarrow> node list \<Rightarrow> node list option" where
  \<comment> \<open>\<^verbatim>\<open>el.querySelector(".merge-request-title-text a").textContent = s\<close>; the flag says
      that an ancestor of class \<^verbatim>\<open>merge-request-title-text\<close> has been passed;
      \<open>None\<close> when the selector finds nothing\<close>
  "set_title_text s inside [] = None"
| "set_title_text s inside (Text t # ns) = map_option ((#) (Text t)) (set_title_text s inside ns)"
| "set_title_text s inside (Element tg cs as ks # ns) =
     (if inside \<and> tg = ''a'' then Some (Element tg cs as (text_nodes s) # ns)
      else case set_title_text s (inside \<or> ''merge-request-title-text'' \<in> set cs) ks of
             Some ks' \<Rightarrow> Some (Element tg cs as ks' # ns)
           | None \<Rightarrow> map_option ((#) (Element tg cs as ks)) (set_title_text s inside ns))"

record item =
  item_classes :: "string list"
  in_mr_list :: bool
  dataset :: "string \<rightharpoonup> string"
  content :: "node list"

definition is_merge_request :: "item \<Rightarrow> bool" where
  "is_merge_request it \<longleftrightarrow> ''merge-request'' \<in> set (item_classes it)"

fun first_index :: "('a \<Rightarrow> bool) \<Rightarrow> 'a list \<Rightarrow> nat option" where
  \<comment> \<open>the position of the first element, in document order, that a selector matches\<close>
  "first_index P [] = None"
| "first_index P (x # xs) = (if P x then Some 0 else map_option Suc (first_index P xs))"

text \<open>
  Only \<^verbatim>\<open>console.error\<close> is recorded, as the diagnostic and the values it names; the
  \<^verbatim>\<open>console.log\<close> lines of the source change nothing and are left out.
\<close>

datatype diagnostic =
    CsrfTokenMissing
  | GitLabError
  | MergeRequestsNotFound nat
  | NodeNotFound nat nat
  | MainInfoNotFound nat
  | FetchDetailsError

datatype js_error = TypeError

record request =
  http_method :: string
  endpoint :: string
  queryStringParameters :: "(string \<times> string) list"
  headers :: "(string \<times> string) list"
  body :: "(string \<times> jvalue) list option"

record page =
  document :: "item list"
  errors :: "diagnostic list"
  alerts :: "string list"
  requests :: "request list"
  timeouts :: "nat list"
  button_disabled :: bool

text \<open>
  The host API is a parameter: what a request is answered with. \<open>None\<close> stands for
  every way in which the promise of \<^verbatim>\<open>fetch\<close> is rejected (no connection, a status
  that is not ok, a body that does not decode). The handlers of a promise run when the
  request is answered; nothing else changes the page between a request and its answer.
\<close>

record remote =
  on_get :: "request \<Rightarrow> merge_request list option"
  on_put :: "request \<Rightarrow> merge_request option"

record preferences =
  display_source_and_target_branches :: bool
  base_jira_url :: string
  copy_mr_info_format :: string

record apiClient =
  baseUrl :: string
  csrfToken :: "string option"

record contentScript =
  currentProjectId :: string
  baseProjectUrl :: string
  preferences :: preferences
  client :: apiClient

section \<open>The platform\<close>

text \<open>
  \<^verbatim>\<open>URL\<close> and \<^verbatim>\<open>DOMParser\<close> are classes of the platform. An object of
  \<^verbatim>\<open>URL\<close> is the record of its components; \<open>authority\<close> is what stands
  between \<^verbatim>\<open>//\<close> and the path (user info, host and port), absent for a URL without
  one. Parsing a string as a URL and the normalisation the \<^verbatim>\<open>pathname\<close> setter
  applies to what it is given are parameters. The setter itself leaves a URL with an opaque
  path (\<^verbatim>\<open>mailto:\<close> and the like) as it is. What the HTML parser makes of a string
  is a parameter as well: \<open>parseFromString\<close> gives the child nodes of the
  \<^verbatim>\<open>body\<close> of the parsed document.
\<close>

record URL =
  protocol :: string
  authority :: "string option"
  pathname :: string
  search :: string
  hash :: string
  opaque_path :: bool

record platform =
  new_URL :: "string \<Rightarrow> URL option"
  path_state :: "string \<Rightarrow> string"
  parseFromString :: "string \<Rightarrow> node list"


section \<open>GitLabApiClient\<close>

definition sendRequest ::
  "apiClient \<Rightarrow> string \<Rightarrow> string \<Rightarrow> (string \<times> string) list \<Rightarrow> (string \<times> jvalue) list option \<Rightarrow>
   page \<Rightarrow> request option \<times> page" where
  \<comment> \<open>\<open>None\<close> is the bare \<^verbatim>\<open>return\<close> (the caller gets \<^verbatim>\<open>undefined\<close>); otherwise
      the request has been handed to \<^verbatim>\<open>fetch\<close> and its promise is returned\<close>
  "sendRequest c meth ep qs dat p =
     (let needs_token = toLowerCase meth \<in> set [''post'', ''put'', ''patch'']
      in if needs_token \<and> (csrfToken c = None \<or> csrfToken c = Some [])
         then (None, p\<lparr>errors := errors p @ [CsrfTokenMissing]\<rparr>)
         else
           let hs = (if needs_token
                     then (case csrfToken c of None \<Rightarrow> [] | Some tok \<Rightarrow> [(''X-CSRF-Token'', tok)])
                     else []) @
                    (if dat \<noteq> None then [(''Content-Type'', ''application/json'')] else []);
               req = \<lparr>http_method = meth, endpoint = baseUrl c @ ep, queryStringParameters = qs,
                      headers = hs, body = dat\<rparr>
           in (Some req, p\<lparr>requests := requests p @ [req]\<rparr>))"

definition on_rejected :: "page \<Rightarrow> page" where
  \<comment> \<open>the handler \<^verbatim>\<open>fetchPromise.catch\<close> carries\<close>
  "on_rejected p =
     p\<lparr>errors := errors p @ [GitLabError],
       alerts := alerts p @ [''Got error from GitLab, check console for more information.'']\<rparr>"

definition getProjectMergeRequests ::
  "apiClient \<Rightarrow> string \<Rightarrow> string list \<Rightarrow> page \<Rightarrow> request option \<times> page" where
  "getProjectMergeRequests c projectId mergeRequestIds p =
     sendRequest c ''GET'' (''projects/'' @ projectId @ ''/merge_requests'')
       (map (\<lambda>mergeRequestId. (''iids[]'', mergeRequestId)) mergeRequestIds) None p"

definition updateProjectMergeRequest ::
  "apiClient \<Rightarrow> string \<Rightarrow> string \<Rightarrow> (string \<times> jvalue) list \<Rightarrow> page \<Rightarrow> request option \<times> page" where
  "updateProjectMergeRequest c projectId mergeRequestId dat p =
     (let dataToSend = Object_assign
            [(''id'', parseInt projectId), (''merge_request_iid'', parseInt mergeRequestId)] dat
      in sendRequest c ''PUT'' (''projects/'' @ projectId @ ''/merge_requests/'' @ mergeRequestId)
           [] (Some dataToSend) p)"

section \<open>ContentScript\<close>

definition reference_selectors :: "(item \<Rightarrow> bool) list" where
  \<comment> \<open>the four selectors that end in \<^verbatim>\<open>.issuable-reference\<close>, as the list items they accept\<close>
  "reference_selectors =
     [\<lambda>it. in_mr_list it \<and> is_merge_request it,
      is_merge_request,
      \<lambda>it. dataset it ''testid'' = Some ''merge-request-item'',
      \<lambda>it. ''gl-list-item'' \<in> set (item_classes it)]"

definition select_references :: "(item \<Rightarrow> bool) \<Rightarrow> item list \<Rightarrow> node list" where
  "select_references sel doc =
     concat (map (\<lambda>it. querySelectorAll ''issuable-reference'' (content it)) (filter sel doc))"

fun first_found :: "(item \<Rightarrow> bool) list \<Rightarrow> item list \<Rightarrow> node list" where
  \<comment> \<open>the loop over the selectors that breaks at the first one with a result\<close>
  "first_found [] doc = []"
| "first_found (sel # sels) doc =
     (if select_references sel doc \<noteq> [] then select_references sel doc else first_found sels doc)"

definition mrElements :: "item list \<Rightarrow> node list" where
  "mrElements doc = first_found reference_selectors doc"

definition getCurrentMergeRequestIds :: "item list \<Rightarrow> string list" where
  "getCurrentMergeRequestIds doc = map (\<lambda>el. replace_bang (trim (textContent el))) (mrElements doc)"

definition removeExistingTargetBranchNodes :: "item list \<Rightarrow> item list" where
  \<comment> \<open>the selector is \<^verbatim>\<open>.mr-list .merge-request .project-ref-path\<close>\<close>
  "removeExistingTargetBranchNodes doc =
     map (\<lambda>it. if in_mr_list it \<and> is_merge_request it
               then it\<lparr>content := removeAll_class ''project-ref-path'' (content it)\<rparr> else it) doc"

text \<open>
  The nine assignments run in the order of the source. The fifth reads
  \<^verbatim>\<open>mergeRequest.author.name\<close>: on a record without author it throws, and the four
  attributes written before it stay on the node.
\<close>

definition setDataAttributesToMergeRequestNode ::
  "item \<Rightarrow> merge_request \<Rightarrow> js_error option \<times> item" where
  "setDataAttributesToMergeRequestNode mergeRequestNode mergeRequest =
     (let node4 = mergeRequestNode\<lparr>dataset := (dataset mergeRequestNode)
            (''title'' \<mapsto> title mergeRequest,
             ''iid'' \<mapsto> decimal (iid mergeRequest),
             ''url'' \<mapsto> web_url mergeRequest,
             ''diffsUrl'' \<mapsto> web_url mergeRequest @ ''/diffs'')\<rparr>
      in case author mergeRequest of
           None \<Rightarrow> (Some TypeError, node4)
         | Some authorName \<Rightarrow>
             (None, node4\<lparr>dataset := (dataset node4)
                (''authorName'' \<mapsto> authorName,
                 ''status'' \<mapsto> state mergeRequest,
                 ''sourceBranchName'' \<mapsto> source_branch mergeRequest,
                 ''targetBranchName'' \<mapsto> target_branch mergeRequest,
                 ''isWip'' \<mapsto> string_of_bool (work_in_progress mergeRequest))\<rparr>))"

text \<open>
  The five selectors tried for a record, in the order of the source. The fourth is the
  one the source walks by hand: the first \<^verbatim>\<open>.issuable-reference\<close> of the item and
  \<^verbatim>\<open>textContent.includes("!" + iid)\<close>.
\<close>

datatype selector = Attribute string string | HasReference string | AnyMergeRequest

definition node_selectors :: "merge_request \<Rightarrow> selector list" where
  "node_selectors mergeRequest =
     [Attribute ''qaIssueId'' (decimal (mr_id mergeRequest)),
      Attribute ''id'' (decimal (mr_id mergeRequest)),
      Attribute ''iid'' (decimal (iid mergeRequest)),
      HasReference (''!'' @ decimal (iid mergeRequest)),
      AnyMergeRequest]"

fun selects :: "selector \<Rightarrow> item \<Rightarrow> bool" where
  "selects (Attribute k v) it = (is_merge_request it \<and> dataset it k = Some v)"
| "selects (HasReference s) it =
     (is_merge_request it \<and>
      (case querySelector ''issuable-reference'' (content it) of
         None \<Rightarrow> False
       | Some referenceEl \<Rightarrow> includes_str (textContent referenceEl) s))"
| "selects AnyMergeRequest it = is_merge_request it"

fun find_node :: "selector list \<Rightarrow> item list \<Rightarrow> nat option" where
  "find_node [] doc = None"
| "find_node (sel # sels) doc =
     (case first_index (selects sel) doc of
        Some i \<Rightarrow> Some i
      | None \<Rightarrow> find_node sels doc)"

text \<open>
  \<^verbatim>\<open>parseHtml\<close> hands the callback the child nodes of the parsed
  \<^verbatim>\<open>body\<close> by \<^verbatim>\<open>childNodes.forEach\<close>. The node list is live and every
  callback of the source moves its node out of it, so the loop, which goes by index,
  reaches every other node only.
\<close>

fun every_other :: "'a list \<Rightarrow> 'a list" where
  "every_other [] = []"
| "every_other [x] = [x]"
| "every_other (x # y # zs) = x # every_other zs"

definition parseHtml :: "platform \<Rightarrow> string \<Rightarrow> node list" where
  \<comment> \<open>the nodes the callback is applied to, in order\<close>
  "parseHtml pf html = every_other (parseFromString pf html)"

definition newInfoLineToInject :: "contentScript \<Rightarrow> merge_request \<Rightarrow> string" where
  \<comment> \<open>the HTML string, concatenated as in the source; \<open>quot\<close> is the double quote\<close>
  "newInfoLineToInject cs mergeRequest =
     ''<div class='' @ quot @ ''issuable-info'' @ quot @ ''>'' @
     ''<span class='' @ quot @ ''project-ref-path has-tooltip'' @ quot @
       '' title='' @ quot @ ''Source branch'' @ quot @ ''>'' @
     ''<a class='' @ quot @ ''ref-name'' @ quot @ '' href='' @ quot @
     baseProjectUrl cs @
     ''/-/commits/'' @
     source_branch mergeRequest @
     quot @ ''>'' @
     source_branch mergeRequest @
     ''</a>'' @
     ''</span>'' @
     ''</div>''"

definition updateMergeRequestNode ::
  "platform \<Rightarrow> contentScript \<Rightarrow> merge_request \<Rightarrow> page \<Rightarrow> js_error option \<times> page" where
  \<comment> \<open>the body of the \<^verbatim>\<open>forEach\<close> of \<^verbatim>\<open>updateMergeRequestsNodes\<close>; the first
      component is what the body throws\<close>
  "updateMergeRequestNode pf cs mergeRequest p =
     (case find_node (node_selectors mergeRequest) (document p) of
        None \<Rightarrow> (None, p\<lparr>errors := errors p @ [NodeNotFound (iid mergeRequest) (mr_id mergeRequest)]\<rparr>)
      | Some i \<Rightarrow>
          (case setDataAttributesToMergeRequestNode (document p ! i) mergeRequest of
             (Some e, mergeRequestNode) \<Rightarrow> (Some e, p\<lparr>document := (document p)[i := mergeRequestNode]\<rparr>)
           | (None, mergeRequestNode) \<Rightarrow>
               if display_source_and_target_branches (preferences cs) then
                 (case append_to_first ''issuable-main-info''
                         (parseHtml pf (newInfoLineToInject cs mergeRequest))
                         (content mergeRequestNode) of
                    Some ks \<Rightarrow>
                      (None, p\<lparr>document := (document p)[i := mergeRequestNode\<lparr>content := ks\<rparr>]\<rparr>)
                  | None \<Rightarrow>
                      (None, p\<lparr>document := (document p)[i := mergeRequestNode],
                               errors := errors p @ [MainInfoNotFound (iid mergeRequest)]\<rparr>))
               else (None, p\<lparr>document := (document p)[i := mergeRequestNode]\<rparr>)))"

fun updateMergeRequestsNodes ::
  "platform \<Rightarrow> contentScript \<Rightarrow> merge_request list \<Rightarrow> page \<Rightarrow> js_error option \<times> page" where
  \<comment> \<open>a throw of the body ends the \<^verbatim>\<open>forEach\<close>: the records after it are not reached\<close>
  "updateMergeRequestsNodes pf cs [] p = (None, p)"
| "updateMergeRequestsNodes pf cs (mergeRequest # mergeRequests) p =
     (case updateMergeRequestNode pf cs mergeRequest p of
        (Some e, p') \<Rightarrow> (Some e, p')
      | (None, p') \<Rightarrow> updateMergeRequestsNodes pf cs mergeRequests p')"

definition on_fetched :: "platform \<Rightarrow> contentScript \<Rightarrow> merge_request list \<Rightarrow> page \<Rightarrow> page" where
  \<comment> \<open>the \<^verbatim>\<open>then\<close> callback of \<^verbatim>\<open>fetchMergeRequestsDetailsThenUpdateUI\<close>, and the
      \<^verbatim>\<open>catch\<close> after it, which logs what the callback throws\<close>
  "on_fetched pf cs responseData p =
     (case updateMergeRequestsNodes pf cs responseData
             (if display_source_and_target_branches (preferences cs)
              then p\<lparr>document := removeExistingTargetBranchNodes (document p)\<rparr> else p) of
        (None, p') \<Rightarrow> p'
      | (Some e, p') \<Rightarrow> p'\<lparr>errors := errors p' @ [FetchDetailsError]\<rparr>)"

definition fetchMergeRequestsDetailsThenUpdateUI ::
  "platform \<Rightarrow> contentScript \<Rightarrow> remote \<Rightarrow> string list \<Rightarrow> page \<Rightarrow> js_error option \<times> page" where
  "fetchMergeRequestsDetailsThenUpdateUI pf cs api mergeRequestIds p =
     (case getProjectMergeRequests (client cs) (currentProjectId cs) mergeRequestIds p of
        (None, p1) \<Rightarrow> (Some TypeError, p1)
      | (Some req, p1) \<Rightarrow>
          (case on_get api req of
             None \<Rightarrow> (None, (on_rejected p1)\<lparr>errors := errors (on_rejected p1) @ [FetchDetailsError]\<rparr>)
           | Some responseData \<Rightarrow> (None, on_fetched pf cs responseData p1)))"

text \<open>
  The poller. \<open>docs k\<close> is the document as the host page has rendered it when attempt
  \<open>k\<close> runs; a retry is a \<^verbatim>\<open>setTimeout\<close> of 1000 ms, recorded in \<open>timeouts\<close>.
\<close>

definition maxAttempts :: nat where
  "maxAttempts = 10"

datatype poll_end = Processed nat "js_error option" | GaveUp nat

function checkForMergeRequests ::
  "platform \<Rightarrow> contentScript \<Rightarrow> remote \<Rightarrow> (nat \<Rightarrow> item list) \<Rightarrow> nat \<Rightarrow> page \<Rightarrow> poll_end \<times> page" where
  "checkForMergeRequests pf cs api docs attempts p =
     (let attempts' = attempts + 1;
          p' = p\<lparr>document := docs attempts'\<rparr>
      in if mrElements (document p') \<noteq> [] then
           (case fetchMergeRequestsDetailsThenUpdateUI pf cs api
                   (getCurrentMergeRequestIds (document p')) p' of
              (thrown, p'') \<Rightarrow> (Processed attempts' thrown, p''))
         else if attempts' < maxAttempts then
           checkForMergeRequests pf cs api docs attempts' (p'\<lparr>timeouts := timeouts p' @ [1000]\<rparr>)
         else (GaveUp attempts', p'\<lparr>errors := errors p' @ [MergeRequestsNotFound maxAttempts]\<rparr>))"
  by pat_completeness auto
termination
  by (relation "measure (\<lambda>(pf, cs, api, docs, attempts, p). maxAttempts - attempts)") auto

declare checkForMergeRequests.simps [simp del]

definition waitForMergeRequestsAndProcess ::
  "platform \<Rightarrow> contentScript \<Rightarrow> remote \<Rightarrow> (nat \<Rightarrow> item list) \<Rightarrow> page \<Rightarrow> poll_end \<times> page" where
  "waitForMergeRequestsAndProcess pf cs api docs p = checkForMergeRequests pf cs api docs 0 p"

section \<open>Toggling the work-in-progress status\<close>

definition wip_newTitle :: "item \<Rightarrow> js_error + string" where
  \<comment> \<open>\<^verbatim>\<open>isWip\<close> and \<^verbatim>\<open>newTitle\<close>; an item without \<^verbatim>\<open>dataset.title\<close> makes
      \<^verbatim>\<open>.replace\<close> or \<^verbatim>\<open>.trim\<close> throw\<close>
  "wip_newTitle mergeRequestNode =
     (let isWip = (dataset mergeRequestNode ''isWip'' = Some ''true'')
      in case dataset mergeRequestNode ''title'' of
           None \<Rightarrow> Inl TypeError
         | Some t \<Rightarrow> Inr (if isWip then trim (replace_WIP t) else ''WIP: '' @ trim t))"

definition dataset_iid :: "item \<Rightarrow> string" where
  \<comment> \<open>\<^verbatim>\<open>dataset.iid\<close> as it is concatenated and parsed: an absent attribute reads
      \<^verbatim>\<open>undefined\<close>\<close>
  "dataset_iid mergeRequestNode =
     (case dataset mergeRequestNode ''iid'' of None \<Rightarrow> ''undefined'' | Some s \<Rightarrow> s)"

definition on_updated :: "nat \<Rightarrow> merge_request \<Rightarrow> page \<Rightarrow> page" where
  \<comment> \<open>the \<^verbatim>\<open>then\<close> callback of the toggle; when the title link is missing the callback
      throws after the two \<^verbatim>\<open>dataset\<close> writes, which stay\<close>
  "on_updated i responseData p =
     (let mergeRequestNode = (document p ! i)\<lparr>dataset := (dataset (document p ! i))
            (''isWip'' \<mapsto> string_of_bool (work_in_progress responseData),
             ''title'' \<mapsto> title responseData)\<rparr>
      in case set_title_text (title responseData) False (content mergeRequestNode) of
           Some ks \<Rightarrow> p\<lparr>document := (document p)[i := mergeRequestNode\<lparr>content := ks\<rparr>]\<rparr>
         | None \<Rightarrow> p\<lparr>document := (document p)[i := mergeRequestNode]\<rparr>)"

definition toggleMergeRequestWipStatus ::
  "contentScript \<Rightarrow> remote \<Rightarrow> nat \<Rightarrow> page \<Rightarrow> js_error option \<times> page" where
  \<comment> \<open>\<open>i\<close> is the position of \<^verbatim>\<open>mergeRequestNode\<close> in the document (out of range when
      \<^verbatim>\<open>closest\<close> found none); the first component is what the call throws\<close>
  "toggleMergeRequestWipStatus cs api i p =
     (let p1 = p\<lparr>button_disabled := True\<rparr>
      in if length (document p1) \<le> i then (Some TypeError, p1)
         else
           case wip_newTitle (document p1 ! i) of
             Inl e \<Rightarrow> (Some e, p1)
           | Inr newTitle \<Rightarrow>
               (case updateProjectMergeRequest (client cs) (currentProjectId cs)
                       (dataset_iid (document p1 ! i)) [(''title'', JString newTitle)] p1 of
                  (None, p2) \<Rightarrow> (Some TypeError, p2)
                | (Some req, p2) \<Rightarrow>
                    (case on_put api req of
                       None \<Rightarrow> (None, (on_rejected p2)\<lparr>button_disabled := False\<rparr>)
                     | Some responseData \<Rightarrow>
                         (None, (on_updated i responseData p2)\<lparr>button_disabled := False\<rparr>))))"

section \<open>Ticket URLs\<close>

definition set_pathname :: "platform \<Rightarrow> URL \<Rightarrow> string \<Rightarrow> URL" where
  "set_pathname pf u v = (if opaque_path u then u else u\<lparr>pathname := path_state pf v\<rparr>)"

definition URL_toString :: "URL \<Rightarrow> string" where
  "URL_toString u =
     protocol u @ (case authority u of None \<Rightarrow> [] | Some a \<Rightarrow> ''//'' @ a) @
     pathname u @ search u @ hash u"

definition createJiraTicketUrl :: "platform \<Rightarrow> contentScript \<Rightarrow> string \<Rightarrow> js_error + string" where
  "createJiraTicketUrl pf cs jiraTicketId =
     (case new_URL pf (base_jira_url (preferences cs)) of
        None \<Rightarrow> Inl TypeError
      | Some baseJiraUrl \<Rightarrow>
          let u1 = (if \<not> endsWith (pathname baseJiraUrl) ''/''
                    then set_pathname pf baseJiraUrl (pathname baseJiraUrl @ ''/'')
                    else baseJiraUrl);
              u2 = set_pathname pf u1 (pathname u1 @ ''browse/'' @ jiraTicketId)
          in Inr (URL_toString u2))"

section \<open>Notions of the specification\<close>

text \<open>The pattern as the specification words it, and what it means to contain it.\<close>

definition ticket_pattern :: "string \<Rightarrow> bool" where
  "ticket_pattern w \<longleftrightarrow>
     (\<exists>ls ds. w = ls @ ''-'' @ ds \<and> 1 \<le> length ls \<and> length ls \<le> 10 \<and>
        list_all is_upper ls \<and> ds \<noteq> [] \<and> list_all is_digit ds)"

definition contains_ticket :: "string \<Rightarrow> bool" where
  "contains_ticket s \<longleftrightarrow> (\<exists>pre w suf. s = pre @ w @ suf \<and> ticket_pattern w)"


text \<open>The title a write carries, and the request the toggle sends for an item.\<close>

definition request_title :: "request \<Rightarrow> string" where
  "request_title req =
     (case body req of
        None \<Rightarrow> []
      | Some kvs \<Rightarrow> (case map_of kvs ''title'' of Some (JString t) \<Rightarrow> t | _ \<Rightarrow> []))"

definition toggle_request :: "contentScript \<Rightarrow> item \<Rightarrow> string \<Rightarrow> string \<Rightarrow> request" where
  "toggle_request cs mergeRequestNode tok newTitle =
     \<lparr>http_method = ''PUT'',
      endpoint = baseUrl (client cs) @ ''projects/'' @ currentProjectId cs @ ''/merge_requests/'' @
                 dataset_iid mergeRequestNode,
      queryStringParameters = [],
      headers = [(''X-CSRF-Token'', tok), (''Content-Type'', ''application/json'')],
      body = Some [(''id'', parseInt (currentProjectId cs)),
                   (''merge_request_iid'', parseInt (dataset_iid mergeRequestNode)),
                   (''title'', JString newTitle)]\<rparr>"

text \<open>
  An annotated title and flag agree when the flag says whether the title starts with the
  marker and, one marker and the white space around it set aside, no marker is left.
\<close>

definition consistent_wip :: "string \<Rightarrow> bool \<Rightarrow> bool" where
  "consistent_wip t w \<longleftrightarrow>
     w = startsWith t ''WIP:'' \<and> \<not> startsWith (trim (replace_WIP t)) ''WIP:''"

definition echoes :: "remote \<Rightarrow> bool" where
  \<comment> \<open>every write succeeds and is answered with the title sent and the flag that title shows\<close>
  "echoes api \<longleftrightarrow>
     (\<forall>req. \<exists>m. on_put api req = Some m \<and> title m = request_title req \<and>
        work_in_progress m = startsWith (request_title req) ''WIP:'')"

text \<open>The read the poller ends with when it has found items.\<close>

definition get_request :: "contentScript \<Rightarrow> string list \<Rightarrow> request" where
  "get_request cs ids =
     \<lparr>http_method = ''GET'',
      endpoint = baseUrl (client cs) @ ''projects/'' @ currentProjectId cs @ ''/merge_requests'',
      queryStringParameters = map (\<lambda>mergeRequestId. (''iids[]'', mergeRequestId)) ids,
      headers = [], body = None\<rparr>"

text \<open>
  The identity token of an item is its reference text, trimmed, without the first
  \<^verbatim>\<open>!\<close>, as \<^verbatim>\<open>getCurrentMergeRequestIds\<close> reads it. The annotated state of an
  item is what its nine \<^verbatim>\<open>data-*\<close> attributes hold, in the order in which they are
  written.
\<close>

definition identity_token :: "item \<Rightarrow> string option" where
  "identity_token it =
     map_option (\<lambda>el. replace_bang (trim (textContent el)))
       (querySelector ''issuable-reference'' (content it))"

definition AnnotatedState :: "item \<Rightarrow> string option list" where
  "AnnotatedState it =
     map (dataset it)
       [''title'', ''iid'', ''url'', ''diffsUrl'', ''authorName'', ''status'',
        ''sourceBranchName'', ''targetBranchName'', ''isWip'']"

text \<open>
  The info block of a record: one branch path node that holds the source branch name as a
  link to the commits of the branch. It is what the parser builds from the HTML string of
  the record when neither the branch name nor the project URL holds a character of markup.
\<close>

definition branch_path :: "contentScript \<Rightarrow> merge_request \<Rightarrow> node" where
  "branch_path cs mergeRequest =
     Element ''span'' [''project-ref-path'', ''has-tooltip''] [(''title'', ''Source branch'')]
       [Element ''a'' [''ref-name'']
          [(''href'', baseProjectUrl cs @ ''/-/commits/'' @ source_branch mergeRequest)]
          (text_nodes (source_branch mergeRequest))]"

definition info_block :: "contentScript \<Rightarrow> merge_request \<Rightarrow> node" where
  "info_block cs mergeRequest = Element ''div'' [''issuable-info''] [] [branch_path cs mergeRequest]"




definition trailing_slash :: "string \<Rightarrow> string" where
  \<comment> \<open>a path with its trailing slash ensured\<close>
  "trailing_slash path = (if endsWith path ''/'' then path else path @ ''/'')"

section \<open>Concrete pages and records\<close>

definition mr42 :: merge_request where
  "mr42 = \<lparr>mr_id = 7, iid = 1, title = ''ABC-1 tidy up'',
     web_url = ''https://gitlab.example.com/g/p/-/merge_requests/1'',
     author = Some ''Ann'', state = ''opened'', source_branch = ''PROJ-42-fix'',
     target_branch = ''main'', work_in_progress = False\<rparr>"

definition mr_title_only :: merge_request where
  "mr_title_only = mr42\<lparr>source_branch := ''bugfix''\<rparr>"

definition mr_no_ticket :: merge_request where
  "mr_no_ticket = mr42\<lparr>source_branch := ''bugfix'', title := ''tidy up abc-1''\<rparr>"

definition title_block :: "string \<Rightarrow> node" where
  "title_block t =
     Element ''div'' [''merge-request-title'', ''title''] []
       [Element ''span'' [''merge-request-title-text''] [] [Element ''a'' [] [] (text_nodes t)]]"

definition reference_block :: "string \<Rightarrow> node" where
  "reference_block r =
     Element ''div'' [''issuable-info''] []
       [Element ''span'' [''issuable-reference''] [] (text_nodes r)]"

definition rendered_item :: "string \<Rightarrow> string \<Rightarrow> item" where
  \<comment> \<open>a list item as the host page renders it: a title and a reference inside the main-info
      region, no \<^verbatim>\<open>data-*\<close> attribute\<close>
  "rendered_item r t =
     \<lparr>item_classes = [''merge-request''], in_mr_list = True, dataset = Map.empty,
      content = [Element ''div'' [''issuable-main-info''] [] [title_block t, reference_block r]]\<rparr>"

definition annotated_item :: "string \<Rightarrow> string \<Rightarrow> string \<Rightarrow> item" where
  "annotated_item r t w =
     (rendered_item r t)\<lparr>dataset := [''title'' \<mapsto> t, ''iid'' \<mapsto> replace_bang r, ''isWip'' \<mapsto> w]\<rparr>"

definition page_of :: "item list \<Rightarrow> page" where
  "page_of doc =
     \<lparr>document = doc, errors = [], alerts = [], requests = [], timeouts = [],
      button_disabled = False\<rparr>"

definition prefs_on :: preferences where
  "prefs_on = \<lparr>display_source_and_target_branches = True,
     base_jira_url = ''https://jira.example.com/jira'', copy_mr_info_format = ''{MR_TITLE}''\<rparr>"

definition script_with :: "string option \<Rightarrow> contentScript" where
  "script_with tok =
     \<lparr>currentProjectId = ''5'', baseProjectUrl = ''/g/p'', preferences = prefs_on,
      client = \<lparr>baseUrl = ''https://gitlab.example.com/api/v4/'', csrfToken = tok\<rparr>\<rparr>"

definition echo :: remote where
  \<comment> \<open>a host that stores the title it is sent and reports the flag the title shows\<close>
  "echo = \<lparr>on_get = (\<lambda>req. Some []),
     on_put = (\<lambda>req. Some (mr42\<lparr>title := request_title req,
                                  work_in_progress := startsWith (request_title req) ''WIP:''\<rparr>))\<rparr>"

definition unreachable :: remote where
  "unreachable = \<lparr>on_get = (\<lambda>req. None), on_put = (\<lambda>req. None)\<rparr>"

definition deaf :: remote where
  \<comment> \<open>a host that stores the title it is sent and does not read \<^verbatim>\<open>WIP:\<close> as a marker\<close>
  "deaf = \<lparr>on_get = (\<lambda>req. Some []),
     on_put = (\<lambda>req. Some (mr42\<lparr>title := request_title req, work_in_progress := False\<rparr>))\<rparr>"

definition page_fix_login :: page where
  "page_fix_login = page_of [annotated_item ''!1'' ''Fix login'' ''false'']"

definition page_wip_fix_login :: page where
  "page_wip_fix_login = page_of [annotated_item ''!1'' ''WIP:Fix login '' ''true'']"


definition deaf_once :: page where
  "deaf_once = snd (toggleMergeRequestWipStatus (script_with (Some ''tok'')) deaf 0 page_fix_login)"

definition deaf_twice :: page where
  "deaf_twice = snd (toggleMergeRequestWipStatus (script_with (Some ''tok'')) deaf 0 deaf_once)"

definition docs_late :: "nat \<Rightarrow> item list" where
  \<comment> \<open>the host page renders its two items just before the third attempt\<close>
  "docs_late k =
     (if k < 3 then [] else [rendered_item ''!1'' ''Fix login'', rendered_item ''!2'' ''Add search''])"

definition docs_never :: "nat \<Rightarrow> item list" where
  "docs_never k = []"

definition page_two :: page where
  "page_two = page_of [rendered_item ''!1'' ''Fix login'', rendered_item ''!2'' ''Add search'']"

definition mr3 :: merge_request where
  "mr3 = mr42\<lparr>mr_id := 30, iid := 3, title := ''Other work'', source_branch := ''other''\<rparr>"

definition mr12 :: merge_request where
  "mr12 = mr42\<lparr>mr_id := 19, iid := 12, title := ''Twelfth'', source_branch := ''twelve''\<rparr>"

definition page_12_1 :: page where
  \<comment> \<open>newest first, as the host page lists merge requests\<close>
  "page_12_1 = page_of [rendered_item ''!12'' ''Twelfth'', rendered_item ''!1'' ''ABC-1 tidy up'']"

definition jira_url :: URL where
  "jira_url = \<lparr>protocol = ''https:'', authority = Some ''jira.example.com'', pathname = ''/jira'',
     search = [], hash = [], opaque_path = False\<rparr>"

definition mailto_url :: URL where
  "mailto_url = \<lparr>protocol = ''mailto:'', authority = None, pathname = ''jira@example.com'',
     search = [], hash = [], opaque_path = True\<rparr>"

definition script_jira :: "string \<Rightarrow> contentScript" where
  "script_jira base = (script_with None)\<lparr>preferences := prefs_on\<lparr>base_jira_url := base\<rparr>\<rparr>"

definition mr2 :: merge_request where
  "mr2 = mr42\<lparr>mr_id := 8, iid := 2, title := ''Add search'', source_branch := ''search''\<rparr>"

definition browser :: platform where
  \<comment> \<open>the platform on the strings used below: a string without a scheme is not a URL, and
      the HTML string of a record of the pages below parses to its info block\<close>
  "browser =
     \<lparr>new_URL = (\<lambda>s. if s = ''https://jira.example.com/jira'' then Some jira_url
                      else if s = ''mailto:jira@example.com'' then Some mailto_url
                      else None),
      path_state = (\<lambda>s. s),
      parseFromString = (\<lambda>html.
        case filter (\<lambda>r. newInfoLineToInject (script_with None) r = html) [mr42, mr2, mr3, mr12] of
          [] \<Rightarrow> []
        | r # rs \<Rightarrow> [info_block (script_with None) r])\<rparr>"




section \<open>Ticket identifiers: the regular expression finds what the pattern describes\<close>

lemma not_upper_hyphen: "\<not> is_upper CHR ''-''" by (simp add: is_upper_def)

lemma list_all_takeWhile: "list_all P (takeWhile P xs)"
  by (induction xs) auto

lemma take_le_takeWhile:
  "k \<le> length (takeWhile P s) \<Longrightarrow> take k s = take k (takeWhile P s)"
  by (induction s arbitrary: k) (auto simp: take_Cons' split: if_splits)

lemma hyphen_digits_Some:
  "hyphen_digits s = Some d \<Longrightarrow>
   \<exists>t. s = CHR ''-'' # t \<and> d = CHR ''-'' # takeWhile is_digit t \<and> takeWhile is_digit t \<noteq> []"
  by (auto simp: hyphen_digits_def split: list.splits if_splits)

lemma letters_back_Some:
  "letters_back k s = Some w \<Longrightarrow> k \<le> length (takeWhile is_upper s) \<Longrightarrow> k \<le> 10 \<Longrightarrow>
   ticket_pattern w \<and> (\<exists>suf. s = w @ suf)"
proof (induction k)
  case 0 then show ?case by simp
next
  case (Suc k)
  show ?case
  proof (cases "hyphen_digits (drop (Suc k) s)")
    case None
    with Suc show ?thesis by simp
  next
    case (Some d)
    with Suc.prems have w: "w = take (Suc k) s @ d" by simp
    from hyphen_digits_Some[OF Some] obtain t where dr: "drop (Suc k) s = CHR ''-'' # t"
      and d: "d = CHR ''-'' # takeWhile is_digit t" and ne: "takeWhile is_digit t \<noteq> []"
      by blast
    have "take (Suc k) s = take (Suc k) (takeWhile is_upper s)"
      using Suc.prems(2) by (rule take_le_takeWhile)
    then have up: "list_all is_upper (take (Suc k) s)"
      using list_all_takeWhile[of is_upper s]
      by (metis list_all_iff in_set_takeD)
    have len: "length (take (Suc k) s) = Suc k"
      using Suc.prems(2) length_takeWhile_le[of is_upper s] by simp
    have "ticket_pattern w"
      unfolding ticket_pattern_def w d
      apply (rule exI[of _ "take (Suc k) s"], rule exI[of _ "takeWhile is_digit t"])
      using up len ne Suc.prems(3) list_all_takeWhile[of is_digit t] by simp
    moreover have "s = w @ dropWhile is_digit t"
    proof -
      have "s = take (Suc k) s @ drop (Suc k) s" by simp
      also have "\<dots> = take (Suc k) s @ CHR ''-'' # takeWhile is_digit t @ dropWhile is_digit t"
        by (simp add: dr)
      finally show ?thesis by (simp add: w d)
    qed
    ultimately show ?thesis by blast
  qed
qed

lemma match_at_Some:
  "match_at s = Some w \<Longrightarrow> ticket_pattern w \<and> (\<exists>suf. s = w @ suf)"
  unfolding match_at_def by (rule letters_back_Some) auto

lemma takeWhile_upper_ticket:
  assumes "list_all is_upper ls"
  shows "takeWhile is_upper (ls @ CHR ''-'' # r) = ls"
  using assms not_upper_hyphen by (induction ls) auto

lemma takeWhile_digit_ne:
  assumes "ds \<noteq> []" "list_all is_digit ds"
  shows "takeWhile is_digit (ds @ r) \<noteq> []"
  using assms by (cases ds) auto

lemma match_at_complete:
  assumes "ticket_pattern w"
  shows "match_at (w @ suf) \<noteq> None"
proof -
  from assms obtain ls ds where w: "w = ls @ ''-'' @ ds" and l1: "1 \<le> length ls"
    and l10: "length ls \<le> 10" and up: "list_all is_upper ls" and ne: "ds \<noteq> []"
    and dg: "list_all is_digit ds"
    unfolding ticket_pattern_def by blast
  have s: "w @ suf = ls @ CHR ''-'' # (ds @ suf)" by (simp add: w)
  have tw: "takeWhile is_upper (w @ suf) = ls"
    unfolding s using up by (rule takeWhile_upper_ticket)
  obtain k where k: "length ls = Suc k" using l1 by (cases "length ls") auto
  have "hyphen_digits (drop (Suc k) (w @ suf)) \<noteq> None"
    unfolding s using takeWhile_digit_ne[OF ne dg, of suf] k[symmetric]
    by (simp add: hyphen_digits_def)
  then have lb: "letters_back (Suc k) (w @ suf) \<noteq> None" by auto
  have "min 10 (length ls) = Suc k" using l10 k by simp
  then show ?thesis
    unfolding match_at_def tw using lb by simp
qed

lemma exec_Some:
  "jiraTicketIdRegex_exec s = Some w \<Longrightarrow> ticket_pattern w \<and> (\<exists>pre suf. s = pre @ w @ suf)"
proof (induction s)
  case Nil
  then show ?case using match_at_Some[of "[]" w] by auto
next
  case (Cons c t)
  show ?case
  proof (cases "match_at (c # t)")
    case (Some m)
    with Cons.prems have "m = w" by simp
    with Some match_at_Some[of "c # t" w] show ?thesis
      by (metis append_Nil)
  next
    case None
    with Cons.prems have "jiraTicketIdRegex_exec t = Some w" by simp
    from Cons.IH[OF this] show ?thesis
      by (metis append_Cons)
  qed
qed

lemma exec_None_iff:
  "jiraTicketIdRegex_exec s = None \<longleftrightarrow> \<not> contains_ticket s"
proof
  show "jiraTicketIdRegex_exec s = None \<Longrightarrow> \<not> contains_ticket s"
  proof (induction s)
    case Nil
    show ?case
    proof
      assume "contains_ticket []"
      then obtain w where "ticket_pattern w" "w = []"
        unfolding contains_ticket_def by auto
      then show False unfolding ticket_pattern_def by auto
    qed
  next
    case (Cons c t)
    from Cons.prems have m: "match_at (c # t) = None" and e: "jiraTicketIdRegex_exec t = None"
      by (auto split: option.splits)
    show ?case
    proof
      assume "contains_ticket (c # t)"
      then obtain pre w suf where s: "c # t = pre @ w @ suf" and tp: "ticket_pattern w"
        unfolding contains_ticket_def by blast
      show False
      proof (cases pre)
        case Nil
        with s m match_at_complete[OF tp, of suf] show False by simp
      next
        case (Cons a pre')
        with s have "t = pre' @ w @ suf" by simp
        with tp have "contains_ticket t" unfolding contains_ticket_def by blast
        with Cons.IH[OF e] show False by simp
      qed
    qed
  qed
next
  assume "\<not> contains_ticket s"
  then show "jiraTicketIdRegex_exec s = None"
    using exec_Some[of s] unfolding contains_ticket_def
    by (cases "jiraTicketIdRegex_exec s") auto
qed

text \<open>
  C8. When the source branch name contains the pattern (one to ten capital letters, a
  hyphen, digits), the ticket id returned is the match the regular expression finds in the
  branch name, whatever the title holds; when only the title contains it, the match comes
  from the title; when neither does, nothing is returned (\<^verbatim>\<open>null\<close>).
\<close>

theorem findFirstJiraTicketId_prefers_branch:
  "(contains_ticket (source_branch mergeRequest) \<longrightarrow>
      (\<exists>w. findFirstJiraTicketId mergeRequest = Some w \<and>
           jiraTicketIdRegex_exec (source_branch mergeRequest) = Some w \<and>
           ticket_pattern w \<and> (\<exists>pre suf. source_branch mergeRequest = pre @ w @ suf))) \<and>
   (\<not> contains_ticket (source_branch mergeRequest) \<and> contains_ticket (title mergeRequest) \<longrightarrow>
      (\<exists>w. findFirstJiraTicketId mergeRequest = Some w \<and>
           ticket_pattern w \<and> (\<exists>pre suf. title mergeRequest = pre @ w @ suf))) \<and>
   (\<not> contains_ticket (source_branch mergeRequest) \<and> \<not> contains_ticket (title mergeRequest) \<longrightarrow>
      findFirstJiraTicketId mergeRequest = None)"
proof (intro conjI impI)
  assume "contains_ticket (source_branch mergeRequest)"
  then obtain w where w: "jiraTicketIdRegex_exec (source_branch mergeRequest) = Some w"
    using exec_None_iff[of "source_branch mergeRequest"] by auto
  then have "findFirstJiraTicketId mergeRequest = Some w"
    by (simp add: findFirstJiraTicketId_def)
  with w exec_Some[OF w]
  show "\<exists>w. findFirstJiraTicketId mergeRequest = Some w \<and>
           jiraTicketIdRegex_exec (source_branch mergeRequest) = Some w \<and>
           ticket_pattern w \<and> (\<exists>pre suf. source_branch mergeRequest = pre @ w @ suf)"
    by blast
next
  assume a: "\<not> contains_ticket (source_branch mergeRequest) \<and> contains_ticket (title mergeRequest)"
  then have n: "jiraTicketIdRegex_exec (source_branch mergeRequest) = None"
    using exec_None_iff by blast
  from a obtain w where w: "jiraTicketIdRegex_exec (title mergeRequest) = Some w"
    using exec_None_iff[of "title mergeRequest"] by auto
  then have "findFirstJiraTicketId mergeRequest = Some w"
    using n by (simp add: findFirstJiraTicketId_def)
  with exec_Some[OF w]
  show "\<exists>w. findFirstJiraTicketId mergeRequest = Some w \<and>
           ticket_pattern w \<and> (\<exists>pre suf. title mergeRequest = pre @ w @ suf)"
    by blast
next
  assume "\<not> contains_ticket (source_branch mergeRequest) \<and> \<not> contains_ticket (title mergeRequest)"
  then have "jiraTicketIdRegex_exec (source_branch mergeRequest) = None"
    and "jiraTicketIdRegex_exec (title mergeRequest) = None"
    using exec_None_iff by blast+
  then show "findFirstJiraTicketId mergeRequest = None"
    by (simp add: findFirstJiraTicketId_def)
qed

lemma contains_PROJ_42: "contains_ticket ''PROJ-42-fix''"
  unfolding contains_ticket_def ticket_pattern_def
  apply (rule exI[of _ "''''"], rule exI[of _ "''PROJ-42''"], rule exI[of _ "''-fix''"])
  apply simp
  apply (rule exI[of _ "''PROJ''"], rule exI[of _ "''42''"])
  apply (simp add: is_upper_def is_digit_def)
  done

lemma contains_ABC_1: "contains_ticket ''ABC-1 tidy up''"
  unfolding contains_ticket_def ticket_pattern_def
  apply (rule exI[of _ "''''"], rule exI[of _ "''ABC-1''"], rule exI[of _ "'' tidy up''"])
  apply simp
  apply (rule exI[of _ "''ABC''"], rule exI[of _ "''1''"])
  apply (simp add: is_upper_def is_digit_def)
  done

lemma no_ticket_bugfix: "\<not> contains_ticket ''bugfix''"
proof -
  have "jiraTicketIdRegex_exec ''bugfix'' = None" by code_simp
  then show ?thesis by (rule exec_None_iff[THEN iffD1])
qed

lemma no_ticket_lower: "\<not> contains_ticket ''tidy up abc-1''"
proof -
  have "jiraTicketIdRegex_exec ''tidy up abc-1'' = None" by code_simp
  then show ?thesis by (rule exec_None_iff[THEN iffD1])
qed

theorem findFirstJiraTicketId_prefers_branch_witness:
  "contains_ticket (source_branch mr42) \<and> contains_ticket (title mr42) \<and>
   findFirstJiraTicketId mr42 = Some ''PROJ-42'' \<and>
   \<not> contains_ticket (source_branch mr_title_only) \<and> contains_ticket (title mr_title_only) \<and>
   findFirstJiraTicketId mr_title_only = Some ''ABC-1'' \<and>
   \<not> contains_ticket (source_branch mr_no_ticket) \<and> \<not> contains_ticket (title mr_no_ticket) \<and>
   findFirstJiraTicketId mr_no_ticket = None"
proof -
  have b: "contains_ticket (source_branch mr42)"
    using contains_PROJ_42 by (simp add: mr42_def)
  have t: "contains_ticket (title mr42)"
    using contains_ABC_1 by (simp add: mr42_def)
  from findFirstJiraTicketId_prefers_branch[of mr42] b
  obtain w where w: "findFirstJiraTicketId mr42 = Some w"
    and e: "jiraTicketIdRegex_exec (source_branch mr42) = Some w" by blast
  have "jiraTicketIdRegex_exec (source_branch mr42) = Some ''PROJ-42''"
    unfolding mr42_def by code_simp
  with e w have r1: "findFirstJiraTicketId mr42 = Some ''PROJ-42''" by simp
  have nb: "\<not> contains_ticket (source_branch mr_title_only)"
    using no_ticket_bugfix by (simp add: mr_title_only_def)
  have tt: "contains_ticket (title mr_title_only)"
    using contains_ABC_1 by (simp add: mr_title_only_def mr42_def)
  from findFirstJiraTicketId_prefers_branch[of mr_title_only] nb tt
  obtain w' where w': "findFirstJiraTicketId mr_title_only = Some w'" by blast
  have "findFirstJiraTicketId mr_title_only = Some ''ABC-1''"
    unfolding mr_title_only_def mr42_def by code_simp
  with w' have r2: "findFirstJiraTicketId mr_title_only = Some ''ABC-1''" by simp
  have nb3: "\<not> contains_ticket (source_branch mr_no_ticket)"
    using no_ticket_bugfix by (simp add: mr_no_ticket_def)
  have nt3: "\<not> contains_ticket (title mr_no_ticket)"
    using no_ticket_lower by (simp add: mr_no_ticket_def mr42_def)
  from findFirstJiraTicketId_prefers_branch[of mr_no_ticket] nb3 nt3
  have r3: "findFirstJiraTicketId mr_no_ticket = None" by blast
  from b t r1 nb tt r2 nb3 nt3 r3 show ?thesis by blast
qed

section \<open>Element trees\<close>

lemma querySelectorAll_Nil [simp]: "querySelectorAll c [] = []"
  by (simp add: querySelectorAll_def)

lemma querySelectorAll_append:
  "querySelectorAll c (xs @ ys) = querySelectorAll c xs @ querySelectorAll c ys"
  by (simp add: querySelectorAll_def)

lemma querySelectorAll_Text [simp]:
  "querySelectorAll c (Text s # ns) = querySelectorAll c ns"
  by (simp add: querySelectorAll_def)

lemma querySelectorAll_Element:
  "querySelectorAll c (Element tg cs as ks # ns) =
     (if c \<in> set cs then [Element tg cs as ks] else []) @ querySelectorAll c ks @ querySelectorAll c ns"
  by (simp add: querySelectorAll_def)

lemma length_querySelectorAll_Element:
  "length (querySelectorAll c (Element tg cs as ks # ns)) =
     (if c \<in> set cs then 1 else 0) + length (querySelectorAll c ks) + length (querySelectorAll c ns)"
  by (simp add: querySelectorAll_Element)



lemma length_append_to_first:
  "append_to_first m new ks = Some ks' \<Longrightarrow>
   length (querySelectorAll c ks') = length (querySelectorAll c ks) + length (querySelectorAll c new)"
proof (induction m new ks arbitrary: ks' rule: append_to_first.induct)
  case (1 m new)
  then show ?case by simp
next
  case (2 m new s ns)
  then show ?case by auto
next
  case (3 m new tg cs as ks ns)
  show ?case
  proof (cases "m \<in> set cs")
    case True
    with "3.prems" have "ks' = Element tg cs as (ks @ new) # ns" by simp
    then show ?thesis
      by (simp add: length_querySelectorAll_Element querySelectorAll_append)
  next
    case False
    show ?thesis
    proof (cases "append_to_first m new ks")
      case (Some kk)
      with False "3.prems" have k: "ks' = Element tg cs as kk # ns" by simp
      from "3.IH"(1)[OF False Some]
      show ?thesis by (simp add: k length_querySelectorAll_Element)
    next
      case None
      with False "3.prems" obtain nn where n: "append_to_first m new ns = Some nn"
        and k: "ks' = Element tg cs as ks # nn" by auto
      from "3.IH"(2)[OF False None n]
      show ?thesis by (simp add: k length_querySelectorAll_Element)
    qed
  qed
qed

lemma querySelector_append:
  "querySelector c (xs @ ys) =
     (case querySelector c xs of Some el \<Rightarrow> Some el | None \<Rightarrow> querySelector c ys)"
  by (induction c xs rule: querySelector.induct) (auto split: option.splits)

lemma append_to_first_None: "append_to_first m new ks = None \<longleftrightarrow> querySelector m ks = None"
  by (induction m new ks rule: append_to_first.induct) (auto split: option.splits)

lemma querySelector_append_to_first:
  assumes "append_to_first m new ks = Some ks'"
    and "querySelector r new = None"
    and "case querySelector r ks of None \<Rightarrow> True | Some el \<Rightarrow> querySelector m [el] = None"
  shows "querySelector r ks' = querySelector r ks"
  using assms
proof (induction m new ks arbitrary: ks' rule: append_to_first.induct)
  case (1 m new)
  then show ?case by simp
next
  case (2 m new s ns)
  then show ?case by auto
next
  case (3 m new tg cs as ks ns)
  show ?case
  proof (cases "m \<in> set cs")
    case True
    with "3.prems"(1) have k: "ks' = Element tg cs as (ks @ new) # ns" by simp
    from True "3.prems"(3) have r: "r \<notin> set cs" by (auto split: if_splits)
    show ?thesis
      using r "3.prems"(2) by (simp add: k querySelector_append split: option.splits)
  next
    case False
    show ?thesis
    proof (cases "append_to_first m new ks")
      case (Some kk)
      with False "3.prems"(1) have k: "ks' = Element tg cs as kk # ns" by simp
      from Some have mk: "querySelector m ks \<noteq> None" using append_to_first_None[of m new ks] by simp
      have r: "r \<notin> set cs"
      proof
        assume "r \<in> set cs"
        with "3.prems"(3) False have "querySelector m ks = None" by (simp split: option.splits)
        with mk show False by simp
      qed
      have c: "case querySelector r ks of None \<Rightarrow> True | Some el \<Rightarrow> querySelector m [el] = None"
        using "3.prems"(3) r by (simp split: option.splits)
      from "3.IH"(1)[OF False Some "3.prems"(2) c]
      show ?thesis using r by (simp add: k)
    next
      case None
      with False "3.prems"(1) obtain nn where n: "append_to_first m new ns = Some nn"
        and k: "ks' = Element tg cs as ks # nn" by auto
      show ?thesis
      proof (cases "r \<in> set cs \<or> querySelector r ks \<noteq> None")
        case True
        then show ?thesis by (auto simp: k)
      next
        case False
        then have c: "case querySelector r ns of None \<Rightarrow> True | Some el \<Rightarrow> querySelector m [el] = None"
          using "3.prems"(3) by (simp split: option.splits)
        from "3.IH"(2)[OF \<open>m \<notin> set cs\<close> None n "3.prems"(2) c]
        show ?thesis using False by (simp add: k)
      qed
    qed
  qed
qed


section \<open>The first match in document order\<close>

lemma first_index_Some:
  "first_index P xs = Some i \<Longrightarrow> i < length xs \<and> P (xs ! i) \<and> (\<forall>j<i. \<not> P (xs ! j))"
proof (induction xs arbitrary: i)
  case Nil
  then show ?case by simp
next
  case (Cons x xs)
  show ?case
  proof (cases "P x")
    case True
    with Cons.prems show ?thesis by simp
  next
    case False
    with Cons.prems obtain k where k: "first_index P xs = Some k" and i: "i = Suc k" by auto
    from Cons.IH[OF k] False show ?thesis
      by (auto simp: i less_Suc_eq_0_disj)
  qed
qed

lemma first_index_None: "first_index P xs = None \<longleftrightarrow> (\<forall>i<length xs. \<not> P (xs ! i))"
proof (induction xs)
  case Nil
  then show ?case by simp
next
  case (Cons x xs)
  then show ?case by (auto simp: less_Suc_eq_0_disj)
qed

lemma first_index_unique:
  assumes "i < length xs" "P (xs ! i)" "\<forall>j. j < length xs \<and> P (xs ! j) \<longrightarrow> j = i"
  shows "first_index P xs = Some i"
proof (cases "first_index P xs")
  case None
  with assms(1,2) show ?thesis by (simp add: first_index_None)
next
  case (Some k)
  from first_index_Some[OF Some] assms(3) show ?thesis using Some by auto
qed


section \<open>One record at a time\<close>


lemma content_setData [simp]:
  "content (snd (setDataAttributesToMergeRequestNode it mr)) = content it"
  by (simp add: setDataAttributesToMergeRequestNode_def Let_def split: option.splits)

lemma item_classes_setData [simp]:
  "item_classes (snd (setDataAttributesToMergeRequestNode it mr)) = item_classes it"
  by (simp add: setDataAttributesToMergeRequestNode_def Let_def split: option.splits)

lemma in_mr_list_setData [simp]:
  "in_mr_list (snd (setDataAttributesToMergeRequestNode it mr)) = in_mr_list it"
  by (simp add: setDataAttributesToMergeRequestNode_def Let_def split: option.splits)

lemma fst_setData:
  "fst (setDataAttributesToMergeRequestNode it mr) = (if author mr = None then Some TypeError else None)"
  by (simp add: setDataAttributesToMergeRequestNode_def Let_def split: option.splits)

text \<open>The five ways the body of the loop over the records can go.\<close>

lemma updateMergeRequestNode_cases:
  obtains (missing) "find_node (node_selectors mr) (document p) = None"
      "updateMergeRequestNode pf cs mr p =
         (None, p\<lparr>errors := errors p @ [NodeNotFound (iid mr) (mr_id mr)]\<rparr>)"
  | (thrown) i where "find_node (node_selectors mr) (document p) = Some i"
      "author mr = None"
      "updateMergeRequestNode pf cs mr p =
         (Some TypeError,
          p\<lparr>document := (document p)[i := snd (setDataAttributesToMergeRequestNode (document p ! i) mr)]\<rparr>)"
  | (plain) i where "find_node (node_selectors mr) (document p) = Some i"
      "author mr \<noteq> None"
      "\<not> display_source_and_target_branches (preferences cs)"
      "updateMergeRequestNode pf cs mr p =
         (None,
          p\<lparr>document := (document p)[i := snd (setDataAttributesToMergeRequestNode (document p ! i) mr)]\<rparr>)"
  | (injected) i ks where "find_node (node_selectors mr) (document p) = Some i"
      "author mr \<noteq> None"
      "display_source_and_target_branches (preferences cs)"
      "append_to_first ''issuable-main-info'' (parseHtml pf (newInfoLineToInject cs mr))
         (content (document p ! i)) = Some ks"
      "updateMergeRequestNode pf cs mr p =
         (None,
          p\<lparr>document := (document p)
             [i := (snd (setDataAttributesToMergeRequestNode (document p ! i) mr))\<lparr>content := ks\<rparr>]\<rparr>)"
  | (no_region) i where "find_node (node_selectors mr) (document p) = Some i"
      "author mr \<noteq> None"
      "display_source_and_target_branches (preferences cs)"
      "append_to_first ''issuable-main-info'' (parseHtml pf (newInfoLineToInject cs mr))
         (content (document p ! i)) = None"
      "updateMergeRequestNode pf cs mr p =
         (None,
          p\<lparr>document := (document p)[i := snd (setDataAttributesToMergeRequestNode (document p ! i) mr)],
            errors := errors p @ [MainInfoNotFound (iid mr)]\<rparr>)"
proof (cases "find_node (node_selectors mr) (document p)")
  case None
  then show ?thesis using missing by (simp add: updateMergeRequestNode_def)
next
  case (Some i)
  obtain e node where s: "setDataAttributesToMergeRequestNode (document p ! i) mr = (e, node)"
    by (cases "setDataAttributesToMergeRequestNode (document p ! i) mr")
  from s have e: "e = (if author mr = None then Some TypeError else None)"
    using fst_setData[of "document p ! i" mr] by simp
  from s have c: "content node = content (document p ! i)"
    using content_setData[of "document p ! i" mr] by simp
  show ?thesis
  proof (cases "author mr = None")
    case True
    with Some s e show ?thesis using thrown[of i] by (simp add: updateMergeRequestNode_def)
  next
    case a: False
    show ?thesis
    proof (cases "display_source_and_target_branches (preferences cs)")
      case False
      with Some s e a show ?thesis using plain[of i] by (simp add: updateMergeRequestNode_def)
    next
      case True
      show ?thesis
      proof (cases "append_to_first ''issuable-main-info'' (parseHtml pf (newInfoLineToInject cs mr))
                      (content (document p ! i))")
        case None
        with Some s e a True show ?thesis using no_region[of i]
          by (simp add: updateMergeRequestNode_def c)
      next
        case (Some ks)
        with \<open>find_node (node_selectors mr) (document p) = Some i\<close> s e a True show ?thesis
          using injected[of i ks] by (simp add: updateMergeRequestNode_def c)
      qed
    qed
  qed
qed

lemma requests_updateMergeRequestNode [simp]:
  "requests (snd (updateMergeRequestNode pf cs mr p)) = requests p"
  by (rule updateMergeRequestNode_cases[where mr = mr and p = p and pf = pf and cs = cs]) simp_all

lemma timeouts_updateMergeRequestNode [simp]:
  "timeouts (snd (updateMergeRequestNode pf cs mr p)) = timeouts p"
  by (rule updateMergeRequestNode_cases[where mr = mr and p = p and pf = pf and cs = cs]) simp_all

lemma requests_updateMergeRequestsNodes [simp]:
  "requests (snd (updateMergeRequestsNodes pf cs mrs p)) = requests p"
proof (induction mrs arbitrary: p)
  case Nil
  then show ?case by simp
next
  case (Cons mr mrs)
  obtain e q where s: "updateMergeRequestNode pf cs mr p = (e, q)"
    by (cases "updateMergeRequestNode pf cs mr p")
  then have "requests q = requests p"
    using requests_updateMergeRequestNode[of pf cs mr p] by simp
  with s Cons.IH[of q] show ?case by (cases e) simp_all
qed

lemma timeouts_updateMergeRequestsNodes [simp]:
  "timeouts (snd (updateMergeRequestsNodes pf cs mrs p)) = timeouts p"
proof (induction mrs arbitrary: p)
  case Nil
  then show ?case by simp
next
  case (Cons mr mrs)
  obtain e q where s: "updateMergeRequestNode pf cs mr p = (e, q)"
    by (cases "updateMergeRequestNode pf cs mr p")
  then have "timeouts q = timeouts p"
    using timeouts_updateMergeRequestNode[of pf cs mr p] by simp
  with s Cons.IH[of q] show ?case by (cases e) simp_all
qed

lemma requests_on_fetched [simp]: "requests (on_fetched pf cs mrs p) = requests p"
proof -
  obtain e q where s: "updateMergeRequestsNodes pf cs mrs
      (if display_source_and_target_branches (preferences cs)
       then p\<lparr>document := removeExistingTargetBranchNodes (document p)\<rparr> else p) = (e, q)"
    by (cases "updateMergeRequestsNodes pf cs mrs
      (if display_source_and_target_branches (preferences cs)
       then p\<lparr>document := removeExistingTargetBranchNodes (document p)\<rparr> else p)")
  from s have "requests q = requests p"
    using requests_updateMergeRequestsNodes[of pf cs mrs "if display_source_and_target_branches (preferences cs)
       then p\<lparr>document := removeExistingTargetBranchNodes (document p)\<rparr> else p"]
    by (simp split: if_splits)
  with s show ?thesis by (cases e) (simp_all add: on_fetched_def)
qed

lemma timeouts_on_fetched [simp]: "timeouts (on_fetched pf cs mrs p) = timeouts p"
proof -
  obtain e q where s: "updateMergeRequestsNodes pf cs mrs
      (if display_source_and_target_branches (preferences cs)
       then p\<lparr>document := removeExistingTargetBranchNodes (document p)\<rparr> else p) = (e, q)"
    by (cases "updateMergeRequestsNodes pf cs mrs
      (if display_source_and_target_branches (preferences cs)
       then p\<lparr>document := removeExistingTargetBranchNodes (document p)\<rparr> else p)")
  from s have "timeouts q = timeouts p"
    using timeouts_updateMergeRequestsNodes[of pf cs mrs "if display_source_and_target_branches (preferences cs)
       then p\<lparr>document := removeExistingTargetBranchNodes (document p)\<rparr> else p"]
    by (simp split: if_splits)
  with s show ?thesis by (cases e) (simp_all add: on_fetched_def)
qed


section \<open>Writes without the anti-forgery token\<close>

lemma lower_PUT: "toLowerCase ''PUT'' = ''put''"
  by code_simp

lemma sendRequest_PUT_no_token:
  assumes "csrfToken c = None \<or> csrfToken c = Some []"
  shows "sendRequest c ''PUT'' ep qs dat p = (None, p\<lparr>errors := errors p @ [CsrfTokenMissing]\<rparr>)"
  using assms by (simp add: sendRequest_def lower_PUT)

lemma sendRequest_PUT_token:
  assumes "csrfToken c = Some tok" "tok \<noteq> []"
  shows "sendRequest c ''PUT'' ep qs (Some d) p =
     (Some \<lparr>http_method = ''PUT'', endpoint = baseUrl c @ ep, queryStringParameters = qs,
             headers = [(''X-CSRF-Token'', tok), (''Content-Type'', ''application/json'')],
             body = Some d\<rparr>,
      p\<lparr>requests := requests p @ [\<lparr>http_method = ''PUT'', endpoint = baseUrl c @ ep, queryStringParameters = qs,
             headers = [(''X-CSRF-Token'', tok), (''Content-Type'', ''application/json'')],
             body = Some d\<rparr>]\<rparr>)"
  using assms by (simp add: sendRequest_def lower_PUT Let_def)

lemma update_title_request:
  assumes "csrfToken (client cs) = Some tok" "tok \<noteq> []"
  shows "updateProjectMergeRequest (client cs) (currentProjectId cs) (dataset_iid node)
           [(''title'', JString nt)] p =
         (Some (toggle_request cs node tok nt),
          p\<lparr>requests := requests p @ [toggle_request cs node tok nt]\<rparr>)"
  unfolding updateProjectMergeRequest_def Let_def
  by (simp add: sendRequest_PUT_token[OF assms] toggle_request_def Object_assign_def)

lemma toggle_issued:
  assumes "i < length (document p)" and "wip_newTitle (document p ! i) = Inr nt"
    and "csrfToken (client cs) = Some tok" and "tok \<noteq> []"
  shows "toggleMergeRequestWipStatus cs api i p =
     (None,
      (case on_put api (toggle_request cs (document p ! i) tok nt) of
         None \<Rightarrow> on_rejected (p\<lparr>button_disabled := True,
                    requests := requests p @ [toggle_request cs (document p ! i) tok nt]\<rparr>)
       | Some responseData \<Rightarrow> on_updated i responseData (p\<lparr>button_disabled := True,
                    requests := requests p @ [toggle_request cs (document p ! i) tok nt]\<rparr>))
      \<lparr>button_disabled := False\<rparr>)"
  using assms(1,2)
  by (simp add: toggleMergeRequestWipStatus_def Let_def update_title_request[OF assms(3,4)]
      split: option.splits)

lemma requests_on_rejected [simp]: "requests (on_rejected p) = requests p"
  by (simp add: on_rejected_def)

lemma requests_on_updated [simp]: "requests (on_updated i m p) = requests p"
  by (simp add: on_updated_def Let_def split: option.splits)

lemma document_on_rejected [simp]: "document (on_rejected p) = document p"
  by (simp add: on_rejected_def)

text \<open>A write without token: whatever the call is given, it ends in the bare
  \<^verbatim>\<open>return\<close> of \<^verbatim>\<open>sendRequest\<close>.\<close>

lemma updateProjectMergeRequest_no_token:
  assumes "csrfToken c = None \<or> csrfToken c = Some []"
  shows "updateProjectMergeRequest c projectId mergeRequestId dat p =
           (None, p\<lparr>errors := errors p @ [CsrfTokenMissing]\<rparr>)"
  unfolding updateProjectMergeRequest_def Let_def
  using assms by (rule sendRequest_PUT_no_token)

text \<open>
  C4. On a page without CSRF token the write of a title hands nothing to
  \<^verbatim>\<open>fetch\<close> and logs the diagnostic, and that is all: the call returns
  \<^verbatim>\<open>undefined\<close>, not a promise, so the caller is given no failure it could handle,
  and no alert is raised. The same write with a token, refused by the host, does fail: its
  promise is rejected, the rejection is logged and the user is alerted.
\<close>

theorem updateProjectMergeRequest_without_token_gives_no_outcome:
  "csrfToken (client (script_with None)) = None \<and>
   updateProjectMergeRequest (client (script_with None)) ''5'' ''1''
     [(''title'', JString ''WIP: Fix login'')] page_fix_login =
     (None, page_fix_login\<lparr>errors := [CsrfTokenMissing]\<rparr>) \<and>
   requests (snd (updateProjectMergeRequest (client (script_with None)) ''5'' ''1''
     [(''title'', JString ''WIP: Fix login'')] page_fix_login)) = [] \<and>
   alerts (snd (updateProjectMergeRequest (client (script_with None)) ''5'' ''1''
     [(''title'', JString ''WIP: Fix login'')] page_fix_login)) = [] \<and>
   fst (updateProjectMergeRequest (client (script_with (Some ''tok''))) ''5'' ''1''
     [(''title'', JString ''WIP: Fix login'')] page_fix_login) \<noteq> None \<and>
   fst (toggleMergeRequestWipStatus (script_with (Some ''tok'')) unreachable 0 page_fix_login) = None \<and>
   errors (snd (toggleMergeRequestWipStatus (script_with (Some ''tok'')) unreachable 0 page_fix_login)) =
     [GitLabError] \<and>
   alerts (snd (toggleMergeRequestWipStatus (script_with (Some ''tok'')) unreachable 0 page_fix_login)) =
     [''Got error from GitLab, check console for more information.'']"
proof -
  have h: "csrfToken (client (script_with None)) = None" by (simp add: script_with_def)
  have e: "requests page_fix_login = []" "errors page_fix_login = []" "alerts page_fix_login = []"
    by (simp_all add: page_fix_login_def page_of_def)
  have u: "updateProjectMergeRequest (client (script_with None)) ''5'' ''1''
     [(''title'', JString ''WIP: Fix login'')] page_fix_login =
     (None, page_fix_login\<lparr>errors := [CsrfTokenMissing]\<rparr>)"
    using updateProjectMergeRequest_no_token[of "client (script_with None)"] h by (simp add: e)
  have t: "fst (updateProjectMergeRequest (client (script_with (Some ''tok''))) ''5'' ''1''
     [(''title'', JString ''WIP: Fix login'')] page_fix_login) \<noteq> None"
    by code_simp
  have r: "fst (toggleMergeRequestWipStatus (script_with (Some ''tok'')) unreachable 0 page_fix_login) = None"
    "errors (snd (toggleMergeRequestWipStatus (script_with (Some ''tok'')) unreachable 0 page_fix_login)) =
     [GitLabError]"
    "alerts (snd (toggleMergeRequestWipStatus (script_with (Some ''tok'')) unreachable 0 page_fix_login)) =
     [''Got error from GitLab, check console for more information.'']"
    by code_simp+
  from h u t r show ?thesis by (simp add: e)
qed

section \<open>The work-in-progress toggle\<close>



text \<open>
  C7. The toggle disables its button first and enables it again in a \<^verbatim>\<open>finally\<close>
  handler. On a page without a CSRF token the write returns no promise, the call throws
  before the handler is attached, and the button stays disabled.
\<close>

theorem toggle_without_token_leaves_button_disabled:
  "fst (toggleMergeRequestWipStatus (script_with None) echo 0 page_fix_login) = Some TypeError \<and>
   button_disabled (snd (toggleMergeRequestWipStatus (script_with None) echo 0 page_fix_login)) = True \<and>
   requests (snd (toggleMergeRequestWipStatus (script_with None) echo 0 page_fix_login)) = [] \<and>
   errors (snd (toggleMergeRequestWipStatus (script_with None) echo 0 page_fix_login)) = [CsrfTokenMissing]"
  by code_simp

text \<open>Once the write has been handed to \<^verbatim>\<open>fetch\<close>, the button is enabled again, and a
  rejected write leaves the document as it was.\<close>

lemma toggle_reenables_after_request:
  assumes "i < length (document p)" and "wip_newTitle (document p ! i) = Inr nt"
    and "csrfToken (client cs) = Some tok" and "tok \<noteq> []"
  shows "fst (toggleMergeRequestWipStatus cs api i p) = None"
    and "button_disabled (snd (toggleMergeRequestWipStatus cs api i p)) = False"
    and "on_put api (toggle_request cs (document p ! i) tok nt) = None \<Longrightarrow>
         document (snd (toggleMergeRequestWipStatus cs api i p)) = document p"
  by (simp_all add: toggle_issued[OF assms] split: option.splits)

section \<open>Toggling twice\<close>

lemma dropWhile_rev_dropWhile:
  "dropWhile P (rev (dropWhile P (rev (dropWhile P s)))) = rev (dropWhile P (rev (dropWhile P s)))"
proof (cases "dropWhile P (rev (dropWhile P s)) = []")
  case True
  show ?thesis unfolding True by simp
next
  case False
  define u where "u = dropWhile P s"
  define v where "v = dropWhile P (rev u)"
  from False have vne: "v \<noteq> []" by (simp add: v_def u_def)
  have "rev u = takeWhile P (rev u) @ v" by (simp add: v_def)
  then have "u = rev v @ rev (takeWhile P (rev u))"
    by (metis rev_append rev_rev_ident)
  then obtain w where uw: "u = rev v @ w" by blast
  have rne: "rev v \<noteq> []" using vne by simp
  then have "hd (rev v) = hd u" "u \<noteq> []" unfolding uw by simp_all
  moreover have "\<not> P (hd u)" using \<open>u \<noteq> []\<close> unfolding u_def by (rule hd_dropWhile)
  ultimately have "\<not> P (hd (rev v))" by simp
  with vne have "dropWhile P (rev v) = rev v" by (cases "rev v") auto
  then show ?thesis by (simp add: v_def u_def)
qed

lemma trim_trim: "trim (trim s) = trim s"
  unfolding trim_def by (simp add: dropWhile_rev_dropWhile)

lemma trim_space_Cons: "is_space c \<Longrightarrow> trim (c # s) = trim s"
  by (simp add: trim_def)

lemma is_space_blank: "is_space CHR '' ''"
  by (simp add: is_space_def)

lemma startsWith_marker: "startsWith (''WIP: '' @ s) ''WIP:''"
  by (simp add: startsWith_def)

lemma replace_WIP_marker: "replace_WIP (''WIP: '' @ s) = CHR '' '' # s"
  by (simp add: replace_WIP_def startsWith_def)

lemma strip_added_marker: "trim (replace_WIP (''WIP: '' @ trim s)) = trim s"
proof -
  have "trim (replace_WIP (''WIP: '' @ trim s)) = trim (CHR '' '' # trim s)"
    by (simp only: replace_WIP_marker)
  also have "\<dots> = trim (trim s)"
    using is_space_blank by (rule trim_space_Cons)
  finally show ?thesis by (simp only: trim_trim)
qed

lemma request_title_toggle_request [simp]:
  "request_title (toggle_request cs node tok nt) = nt"
  by (simp add: request_title_def toggle_request_def)

lemma length_on_updated [simp]: "length (document (on_updated i m p)) = length (document p)"
  by (simp add: on_updated_def Let_def split: option.splits)

lemma dataset_on_updated:
  assumes "i < length (document p)"
  shows "dataset (document (on_updated i m p) ! i) =
         (dataset (document p ! i))(''isWip'' \<mapsto> string_of_bool (work_in_progress m), ''title'' \<mapsto> title m)"
  using assms by (simp add: on_updated_def Let_def split: option.splits)

lemma string_of_bool_true [simp]: "string_of_bool b = ''true'' \<longleftrightarrow> b"
  by (simp add: string_of_bool_def)

lemma toggle_once:
  assumes i: "i < length (document p)"
    and t: "dataset (document p ! i) ''title'' = Some t"
    and tok: "csrfToken (client cs) = Some tok" "tok \<noteq> []"
    and api: "echoes api"
  defines "nt \<equiv> (if dataset (document p ! i) ''isWip'' = Some ''true''
                  then trim (replace_WIP t) else ''WIP: '' @ trim t)"
  defines "p' \<equiv> snd (toggleMergeRequestWipStatus cs api i p)"
  shows "length (document p') = length (document p) \<and>
         dataset (document p' ! i) ''title'' = Some nt \<and>
         dataset (document p' ! i) ''isWip'' = Some (string_of_bool (startsWith nt ''WIP:''))"
proof -
  have nt: "wip_newTitle (document p ! i) = Inr nt"
    using t by (simp add: wip_newTitle_def nt_def)
  define q where "q = p\<lparr>button_disabled := True,
      requests := requests p @ [toggle_request cs (document p ! i) tok nt]\<rparr>"
  from api obtain m where m: "on_put api (toggle_request cs (document p ! i) tok nt) = Some m"
    and mt: "title m = nt" and mw: "work_in_progress m = startsWith nt ''WIP:''"
    unfolding echoes_def
    by (metis request_title_toggle_request)
  have p': "p' = (on_updated i m q)\<lparr>button_disabled := False\<rparr>"
    unfolding p'_def q_def by (simp add: toggle_issued[OF i nt tok] m)
  have iq: "i < length (document q)" using i by (simp add: q_def)
  have dq: "document q = document p" by (simp add: q_def)
  show ?thesis
    unfolding p' using iq dataset_on_updated[OF iq, of m] by (simp add: mt mw dq)
qed

text \<open>
  C5, as amended. Take an item whose annotated title and flag agree, a page with a CSRF
  token, and a host that answers every write with the title it was sent and with the flag
  that title shows. Toggling twice brings the flag back to its value and the title back
  to itself up to white space: a marked title comes back as the marker, one blank and the
  trimmed rest, an unmarked title comes back trimmed.
\<close>

theorem toggle_twice_restores:
  assumes i: "i < length (document p)"
    and t: "dataset (document p ! i) ''title'' = Some t"
    and w: "dataset (document p ! i) ''isWip'' = Some (string_of_bool w)"
    and c: "consistent_wip t w"
    and tok: "csrfToken (client cs) = Some tok" "tok \<noteq> []"
    and api: "echoes api"
  shows "dataset (document (snd (toggleMergeRequestWipStatus cs api i
            (snd (toggleMergeRequestWipStatus cs api i p)))) ! i) ''isWip'' = Some (string_of_bool w) \<and>
         dataset (document (snd (toggleMergeRequestWipStatus cs api i
            (snd (toggleMergeRequestWipStatus cs api i p)))) ! i) ''title'' =
           Some (if w then ''WIP: '' @ trim (replace_WIP t) else trim t)"
proof -
  define p1 where "p1 = snd (toggleMergeRequestWipStatus cs api i p)"
  define nt1 where "nt1 = (if w then trim (replace_WIP t) else ''WIP: '' @ trim t)"
  have isw: "dataset (document p ! i) ''isWip'' = Some ''true'' \<longleftrightarrow> w"
    using w by simp
  from toggle_once[OF i t tok api]
  have l1: "length (document p1) = length (document p)"
    and t1: "dataset (document p1 ! i) ''title'' = Some nt1"
    and w1: "dataset (document p1 ! i) ''isWip'' = Some (string_of_bool (startsWith nt1 ''WIP:''))"
    unfolding p1_def nt1_def isw by simp_all
  have s1: "startsWith nt1 ''WIP:'' \<longleftrightarrow> \<not> w"
  proof (cases w)
    case True
    with c show ?thesis by (simp add: nt1_def consistent_wip_def)
  next
    case False
    have "startsWith (''WIP: '' @ trim t) ''WIP:''" by (rule startsWith_marker)
    with False show ?thesis unfolding nt1_def by (simp only: if_False simp_thms)
  qed
  have i1: "i < length (document p1)" using i l1 by simp
  have isw1: "dataset (document p1 ! i) ''isWip'' = Some ''true'' \<longleftrightarrow> \<not> w"
    using w1 s1 by simp
  define nt2 where "nt2 = (if \<not> w then trim (replace_WIP nt1) else ''WIP: '' @ trim nt1)"
  from toggle_once[OF i1 t1 tok api]
  have t2: "dataset (document (snd (toggleMergeRequestWipStatus cs api i p1)) ! i) ''title'' = Some nt2"
    and w2: "dataset (document (snd (toggleMergeRequestWipStatus cs api i p1)) ! i) ''isWip'' =
             Some (string_of_bool (startsWith nt2 ''WIP:''))"
    unfolding nt2_def isw1 by simp_all
  have n2: "nt2 = (if w then ''WIP: '' @ trim (replace_WIP t) else trim t)"
  proof (cases w)
    case True
    then show ?thesis by (simp add: nt2_def nt1_def trim_trim)
  next
    case False
    then have "nt2 = trim (replace_WIP (''WIP: '' @ trim t))" by (simp add: nt2_def nt1_def)
    then show ?thesis using False by (simp only: strip_added_marker if_False)
  qed
  have s2: "startsWith nt2 ''WIP:'' \<longleftrightarrow> w"
  proof (cases w)
    case True
    then show ?thesis unfolding n2 using startsWith_marker by simp
  next
    case False
    with c have "\<not> startsWith t ''WIP:''" "\<not> startsWith (trim (replace_WIP t)) ''WIP:''"
      by (simp_all add: consistent_wip_def)
    then have "\<not> startsWith (trim t) ''WIP:''" by (simp add: replace_WIP_def)
    with False show ?thesis unfolding n2 by simp
  qed
  show ?thesis
    using t2 w2 unfolding p1_def[symmetric] n2[symmetric] s2 by simp
qed

lemma echoes_echo: "echoes echo"
  by (simp add: echoes_def echo_def)

theorem toggle_twice_restores_witness:
  "consistent_wip ''WIP:Fix login '' True \<and> echoes echo \<and>
   dataset (document (snd (toggleMergeRequestWipStatus (script_with (Some ''tok'')) echo 0
     (snd (toggleMergeRequestWipStatus (script_with (Some ''tok'')) echo 0 page_wip_fix_login)))) ! 0)
     ''isWip'' = Some ''true'' \<and>
   dataset (document (snd (toggleMergeRequestWipStatus (script_with (Some ''tok'')) echo 0
     (snd (toggleMergeRequestWipStatus (script_with (Some ''tok'')) echo 0 page_wip_fix_login)))) ! 0)
     ''title'' = Some ''WIP: Fix login''"
proof -
  have c: "consistent_wip ''WIP:Fix login '' True" by code_simp
  have i: "0 < length (document page_wip_fix_login)"
    by (simp add: page_wip_fix_login_def page_of_def)
  have t: "dataset (document page_wip_fix_login ! 0) ''title'' = Some ''WIP:Fix login ''"
    by (simp add: page_wip_fix_login_def page_of_def annotated_item_def)
  have w: "dataset (document page_wip_fix_login ! 0) ''isWip'' = Some (string_of_bool True)"
    by (simp add: page_wip_fix_login_def page_of_def annotated_item_def string_of_bool_def)
  have tok: "csrfToken (client (script_with (Some ''tok''))) = Some ''tok''" "''tok'' \<noteq> []"
    by (simp_all add: script_with_def)
  have n: "''WIP: '' @ trim (replace_WIP ''WIP:Fix login '') = ''WIP: Fix login''"
    by code_simp
  from toggle_twice_restores[OF i t w c tok echoes_echo] c echoes_echo
  show ?thesis by (simp only: n if_True) (simp add: string_of_bool_def)
qed

text \<open>
  C5, as stated, fails when the host echoes the title and reports the flag on its own
  terms. Against a host that never reports work in progress, an unmarked item is marked
  twice: both writes succeed, both titles are echoed, and the title ends with two markers.
\<close>

theorem toggle_twice_deaf_counterexample:
  "consistent_wip ''Fix login'' False \<and>
   dataset (document page_fix_login ! 0) ''title'' = Some ''Fix login'' \<and>
   dataset (document page_fix_login ! 0) ''isWip'' = Some ''false'' \<and>
   map request_title (requests deaf_twice) = [''WIP: Fix login'', ''WIP: WIP: Fix login''] \<and>
   map_option title (on_put deaf (requests deaf_twice ! 0)) = Some ''WIP: Fix login'' \<and>
   map_option title (on_put deaf (requests deaf_twice ! 1)) = Some ''WIP: WIP: Fix login'' \<and>
   errors deaf_twice = [] \<and>
   dataset (document deaf_twice ! 0) ''title'' = Some ''WIP: WIP: Fix login'' \<and>
   dataset (document deaf_twice ! 0) ''title'' \<noteq> dataset (document page_fix_login ! 0) ''title''"
  by code_simp


section \<open>The poller\<close>


lemma lower_GET: "toLowerCase ''GET'' = ''get''"
  by code_simp

lemma getProjectMergeRequests_issues:
  "getProjectMergeRequests (client cs) (currentProjectId cs) ids p =
     (Some (get_request cs ids), p\<lparr>requests := requests p @ [get_request cs ids]\<rparr>)"
  by (simp add: getProjectMergeRequests_def sendRequest_def lower_GET get_request_def Let_def)

lemma fetch_effects:
  "fst (fetchMergeRequestsDetailsThenUpdateUI pf cs api ids p) = None \<and>
   requests (snd (fetchMergeRequestsDetailsThenUpdateUI pf cs api ids p)) = requests p @ [get_request cs ids] \<and>
   timeouts (snd (fetchMergeRequestsDetailsThenUpdateUI pf cs api ids p)) = timeouts p"
  by (simp add: fetchMergeRequestsDetailsThenUpdateUI_def getProjectMergeRequests_issues
      on_rejected_def split: option.splits)

lemma replicate_step:
  assumes "Suc a < n"
  shows "[x] @ replicate (n - Suc a - 1) x = replicate (n - a - 1) x"
proof -
  have "n - a - 1 = Suc (n - Suc a - 1)" using assms by arith
  then show ?thesis by simp
qed

lemma check_found:
  assumes "a < n" and "n \<le> maxAttempts" and "mrElements (docs n) \<noteq> []"
    and "\<forall>k. a < k \<and> k < n \<longrightarrow> mrElements (docs k) = []"
  shows "checkForMergeRequests pf cs api docs a p =
     (Processed n (fst (fetchMergeRequestsDetailsThenUpdateUI pf cs api (getCurrentMergeRequestIds (docs n))
                      (p\<lparr>document := docs n, timeouts := timeouts p @ replicate (n - a - 1) 1000\<rparr>))),
      snd (fetchMergeRequestsDetailsThenUpdateUI pf cs api (getCurrentMergeRequestIds (docs n))
                      (p\<lparr>document := docs n, timeouts := timeouts p @ replicate (n - a - 1) 1000\<rparr>)))"
  using assms
proof (induction "n - a" arbitrary: a p)
  case 0
  then show ?case by simp
next
  case (Suc d)
  show ?case
  proof (cases "Suc a = n")
    case True
    with Suc.prems(3) show ?thesis
      by (subst checkForMergeRequests.simps) (simp add: Let_def split: prod.splits)
  next
    case False
    with Suc.prems have lt: "Suc a < n" and e: "mrElements (docs (Suc a)) = []" by auto
    have d: "d = n - Suc a" using Suc.hyps(2) by simp
    have "checkForMergeRequests pf cs api docs a p =
          checkForMergeRequests pf cs api docs (Suc a)
            (p\<lparr>document := docs (Suc a), timeouts := timeouts p @ [1000]\<rparr>)"
      using e lt Suc.prems(2) by (subst checkForMergeRequests.simps) (simp add: Let_def)
    also have "\<dots> = (Processed n (fst (fetchMergeRequestsDetailsThenUpdateUI pf cs api (getCurrentMergeRequestIds (docs n))
                      (p\<lparr>document := docs n, timeouts := timeouts p @ replicate (n - a - 1) 1000\<rparr>))),
      snd (fetchMergeRequestsDetailsThenUpdateUI pf cs api (getCurrentMergeRequestIds (docs n))
                      (p\<lparr>document := docs n, timeouts := timeouts p @ replicate (n - a - 1) 1000\<rparr>)))"
    proof -
      have r: "[1000] @ replicate (n - Suc a - 1) (1000::nat) = replicate (n - a - 1) 1000"
        using lt by (rule replicate_step)
      show ?thesis
        using Suc.hyps(1)[OF d lt Suc.prems(2,3), of "p\<lparr>document := docs (Suc a), timeouts := timeouts p @ [1000]\<rparr>"]
          Suc.prems(4) r
        by simp
    qed
    finally show ?thesis .
  qed
qed

lemma check_exhausted:
  assumes "a < maxAttempts"
    and "\<forall>k. a < k \<and> k \<le> maxAttempts \<longrightarrow> mrElements (docs k) = []"
  shows "checkForMergeRequests pf cs api docs a p =
     (GaveUp maxAttempts,
      p\<lparr>document := docs maxAttempts,
        timeouts := timeouts p @ replicate (maxAttempts - a - 1) 1000,
        errors := errors p @ [MergeRequestsNotFound maxAttempts]\<rparr>)"
  using assms
proof (induction "maxAttempts - a" arbitrary: a p)
  case 0
  then show ?case by simp
next
  case (Suc d)
  from Suc.prems have e: "mrElements (docs (Suc a)) = []" by auto
  show ?case
  proof (cases "Suc a = maxAttempts")
    case True
    then have "maxAttempts - a - 1 = 0" by simp
    with True e show ?thesis
      by (subst checkForMergeRequests.simps) (simp add: Let_def)
  next
    case False
    with Suc.prems have lt: "Suc a < maxAttempts" by simp
    have d: "d = maxAttempts - Suc a" using Suc.hyps(2) by simp
    have r: "[1000] @ replicate (maxAttempts - Suc a - 1) (1000::nat) = replicate (maxAttempts - a - 1) 1000"
      using lt by (rule replicate_step)
    have "checkForMergeRequests pf cs api docs a p =
          checkForMergeRequests pf cs api docs (Suc a)
            (p\<lparr>document := docs (Suc a), timeouts := timeouts p @ [1000]\<rparr>)"
      using e lt by (subst checkForMergeRequests.simps) (simp add: Let_def)
    also have "\<dots> = (GaveUp maxAttempts,
      p\<lparr>document := docs maxAttempts,
        timeouts := timeouts p @ replicate (maxAttempts - a - 1) 1000,
        errors := errors p @ [MergeRequestsNotFound maxAttempts]\<rparr>)"
      using Suc.hyps(1)[OF d lt, of "p\<lparr>document := docs (Suc a), timeouts := timeouts p @ [1000]\<rparr>"]
        Suc.prems(2) r by simp
    finally show ?thesis .
  qed
qed


lemma max10: "maxAttempts = 10" by (simp add: maxAttempts_def)

text \<open>
  C3. Whatever the host page renders and whenever, the poller makes at most ten attempts,
  each retry scheduled with the same delay of 1000 ms, and always ends. With the first
  attempt that finds a rendered reference it reads the ids and issues the read for them;
  nothing is thrown. When none of the ten attempts finds one, it ends with the diagnostic
  and has issued no request.
\<close>

theorem waitForMergeRequestsAndProcess_bounded:
  "((\<exists>k. 1 \<le> k \<and> k \<le> 10 \<and> mrElements (docs k) \<noteq> []) \<longrightarrow>
      (\<exists>n. 1 \<le> n \<and> n \<le> 10 \<and> mrElements (docs n) \<noteq> [] \<and>
           (\<forall>k. 1 \<le> k \<and> k < n \<longrightarrow> mrElements (docs k) = []) \<and>
           fst (waitForMergeRequestsAndProcess pf cs api docs p) = Processed n None \<and>
           timeouts (snd (waitForMergeRequestsAndProcess pf cs api docs p)) =
             timeouts p @ replicate (n - 1) 1000 \<and>
           requests (snd (waitForMergeRequestsAndProcess pf cs api docs p)) =
             requests p @ [get_request cs (getCurrentMergeRequestIds (docs n))])) \<and>
   ((\<forall>k. 1 \<le> k \<and> k \<le> 10 \<longrightarrow> mrElements (docs k) = []) \<longrightarrow>
      waitForMergeRequestsAndProcess pf cs api docs p =
        (GaveUp 10, p\<lparr>document := docs 10, timeouts := timeouts p @ replicate 9 1000,
                        errors := errors p @ [MergeRequestsNotFound 10]\<rparr>)) \<and>
   (\<exists>n. 1 \<le> n \<and> n \<le> 10 \<and>
        timeouts (snd (waitForMergeRequestsAndProcess pf cs api docs p)) =
          timeouts p @ replicate (n - 1) 1000 \<and>
        (fst (waitForMergeRequestsAndProcess pf cs api docs p) = GaveUp n \<or>
         fst (waitForMergeRequestsAndProcess pf cs api docs p) = Processed n None))"
proof -
  let ?r = "waitForMergeRequestsAndProcess pf cs api docs p"
  have found: "\<exists>n. 1 \<le> n \<and> n \<le> 10 \<and> mrElements (docs n) \<noteq> [] \<and>
           (\<forall>k. 1 \<le> k \<and> k < n \<longrightarrow> mrElements (docs k) = []) \<and>
           fst ?r = Processed n None \<and>
           timeouts (snd ?r) = timeouts p @ replicate (n - 1) 1000 \<and>
           requests (snd ?r) = requests p @ [get_request cs (getCurrentMergeRequestIds (docs n))]"
    if ex: "\<exists>k. 1 \<le> k \<and> k \<le> 10 \<and> mrElements (docs k) \<noteq> []"
  proof -
    define n where "n = (LEAST k. 1 \<le> k \<and> k \<le> 10 \<and> mrElements (docs k) \<noteq> [])"
    from ex have n: "1 \<le> n \<and> n \<le> 10 \<and> mrElements (docs n) \<noteq> []"
      unfolding n_def by (rule LeastI_ex)
    have least: "mrElements (docs k) = []" if "1 \<le> k" "k < n" for k
    proof (rule ccontr)
      assume "mrElements (docs k) \<noteq> []"
      with that n have "1 \<le> k \<and> k \<le> 10 \<and> mrElements (docs k) \<noteq> []" by simp
      then have "n \<le> k" unfolding n_def by (rule Least_le)
      with that show False by simp
    qed
    have a: "0 < n" "n \<le> maxAttempts" using n by (simp_all add: max10)
    have b: "\<forall>k. 0 < k \<and> k < n \<longrightarrow> mrElements (docs k) = []" using least by simp
    have "?r = (Processed n (fst (fetchMergeRequestsDetailsThenUpdateUI pf cs api (getCurrentMergeRequestIds (docs n))
                      (p\<lparr>document := docs n, timeouts := timeouts p @ replicate (n - 0 - 1) 1000\<rparr>))),
      snd (fetchMergeRequestsDetailsThenUpdateUI pf cs api (getCurrentMergeRequestIds (docs n))
                      (p\<lparr>document := docs n, timeouts := timeouts p @ replicate (n - 0 - 1) 1000\<rparr>)))"
      unfolding waitForMergeRequestsAndProcess_def
      using a(1,2) n[THEN conjunct2, THEN conjunct2] b by (rule check_found)
    then have "fst ?r = Processed n None \<and>
           timeouts (snd ?r) = timeouts p @ replicate (n - 1) 1000 \<and>
           requests (snd ?r) = requests p @ [get_request cs (getCurrentMergeRequestIds (docs n))]"
      by (simp add: fetch_effects)
    with n least show ?thesis by blast
  qed
  have none: "?r = (GaveUp 10, p\<lparr>document := docs 10, timeouts := timeouts p @ replicate 9 1000,
                        errors := errors p @ [MergeRequestsNotFound 10]\<rparr>)"
    if all: "\<forall>k. 1 \<le> k \<and> k \<le> 10 \<longrightarrow> mrElements (docs k) = []"
  proof -
    have a: "0 < maxAttempts" by (simp add: max10)
    have b: "\<forall>k. 0 < k \<and> k \<le> maxAttempts \<longrightarrow> mrElements (docs k) = []"
      using all by (simp add: max10)
    have "?r = (GaveUp maxAttempts,
      p\<lparr>document := docs maxAttempts,
        timeouts := timeouts p @ replicate (maxAttempts - 0 - 1) 1000,
        errors := errors p @ [MergeRequestsNotFound maxAttempts]\<rparr>)"
      unfolding waitForMergeRequestsAndProcess_def using a b by (rule check_exhausted)
    then show ?thesis by (simp add: max10)
  qed
  have bound: "\<exists>n. 1 \<le> n \<and> n \<le> 10 \<and> timeouts (snd ?r) = timeouts p @ replicate (n - 1) 1000 \<and>
        (fst ?r = GaveUp n \<or> fst ?r = Processed n None)"
  proof (cases "\<exists>k. 1 \<le> k \<and> k \<le> 10 \<and> mrElements (docs k) \<noteq> []")
    case True
    from found[OF True] show ?thesis by blast
  next
    case False
    then have "\<forall>k. 1 \<le> k \<and> k \<le> 10 \<longrightarrow> mrElements (docs k) = []" by blast
    from none[OF this] show ?thesis by (intro exI[of _ 10]) simp
  qed
  from found none bound show ?thesis by blast
qed


lemma mrElements_docs_late: "mrElements (docs_late k) = [] \<longleftrightarrow> k < 3"
proof -
  have ne: "mrElements [rendered_item ''!1'' ''Fix login'', rendered_item ''!2'' ''Add search''] \<noteq> []"
    by code_simp
  have em: "mrElements [] = []" by code_simp
  show ?thesis by (simp add: docs_late_def ne em)
qed

lemma mrElements_docs_never: "mrElements (docs_never k) = []"
proof -
  have em: "mrElements [] = []" by code_simp
  then show ?thesis by (simp add: docs_never_def)
qed

theorem waitForMergeRequestsAndProcess_bounded_witness:
  "mrElements (docs_late 3) \<noteq> [] \<and>
   fst (waitForMergeRequestsAndProcess browser (script_with None) echo docs_late (page_of [])) = Processed 3 None \<and>
   timeouts (snd (waitForMergeRequestsAndProcess browser (script_with None) echo docs_late (page_of []))) = [1000, 1000] \<and>
   requests (snd (waitForMergeRequestsAndProcess browser (script_with None) echo docs_late (page_of []))) =
     [get_request (script_with None) [''1'', ''2'']] \<and>
   mrElements (docs_never 10) = [] \<and>
   fst (waitForMergeRequestsAndProcess browser (script_with None) echo docs_never (page_of [])) = GaveUp 10 \<and>
   requests (snd (waitForMergeRequestsAndProcess browser (script_with None) echo docs_never (page_of []))) = [] \<and>
   errors (snd (waitForMergeRequestsAndProcess browser (script_with None) echo docs_never (page_of []))) =
     [MergeRequestsNotFound 10] \<and>
   length (timeouts (snd (waitForMergeRequestsAndProcess browser (script_with None) echo docs_never (page_of [])))) = 9"
proof -
  let ?late = "waitForMergeRequestsAndProcess browser (script_with None) echo docs_late (page_of [])"
  let ?never = "waitForMergeRequestsAndProcess browser (script_with None) echo docs_never (page_of [])"
  have l3: "mrElements (docs_late 3) \<noteq> []" by (simp add: mrElements_docs_late)
  then have ex: "\<exists>k. 1 \<le> k \<and> k \<le> 10 \<and> mrElements (docs_late k) \<noteq> []"
    by (intro exI[of _ 3]) simp
  from waitForMergeRequestsAndProcess_bounded[where docs = docs_late and pf = browser and cs = "script_with None" and api = echo and p = "page_of []"] ex
  obtain n where n: "mrElements (docs_late n) \<noteq> []"
    and least: "\<forall>k. 1 \<le> k \<and> k < n \<longrightarrow> mrElements (docs_late k) = []"
    and r: "fst ?late = Processed n None"
      "timeouts (snd ?late) = timeouts (page_of []) @ replicate (n - 1) 1000"
      "requests (snd ?late) = requests (page_of []) @
         [get_request (script_with None) (getCurrentMergeRequestIds (docs_late n))]"
    by blast
  from n have "3 \<le> n" by (simp add: mrElements_docs_late)
  moreover have "n \<le> 3"
  proof (rule ccontr)
    assume "\<not> n \<le> 3"
    then have "1 \<le> (3::nat) \<and> 3 < n" by simp
    with least have "mrElements (docs_late 3) = []" by blast
    with l3 show False by simp
  qed
  ultimately have n3: "n = 3" by simp
  have ids: "getCurrentMergeRequestIds (docs_late 3) = [''1'', ''2'']" by code_simp
  have rep: "replicate (3 - 1) (1000::nat) = [1000, 1000]" by code_simp
  have late: "fst ?late = Processed 3 None \<and> timeouts (snd ?late) = [1000, 1000] \<and>
     requests (snd ?late) = [get_request (script_with None) [''1'', ''2'']]"
    using r unfolding n3 ids rep by (simp add: page_of_def)
  have all: "\<forall>k. 1 \<le> k \<and> k \<le> 10 \<longrightarrow> mrElements (docs_never k) = []"
    by (simp add: mrElements_docs_never)
  from waitForMergeRequestsAndProcess_bounded[where docs = docs_never and pf = browser and cs = "script_with None" and api = echo and p = "page_of []"] all
  have "?never = (GaveUp 10, (page_of [])\<lparr>document := docs_never 10,
          timeouts := timeouts (page_of []) @ replicate 9 1000,
          errors := errors (page_of []) @ [MergeRequestsNotFound 10]\<rparr>)"
    by blast
  then have never: "fst ?never = GaveUp 10 \<and> requests (snd ?never) = [] \<and>
     errors (snd ?never) = [MergeRequestsNotFound 10] \<and> length (timeouts (snd ?never)) = 9"
    by (simp add: page_of_def)
  from l3 late never mrElements_docs_never[of 10] show ?thesis by blast
qed

section \<open>Which item a record is written to\<close>

text \<open>
  C1. The page lists \<^verbatim>\<open>!12\<close> before \<^verbatim>\<open>!1\<close>, and the batch holds the records
  of both. No item carries an attribute, so each record is looked for by the scan, which
  asks whether the reference text contains \<^verbatim>\<open>!\<close> and the iid. The reference
  \<^verbatim>\<open>!12\<close> contains \<^verbatim>\<open>!1\<close>: the record with iid 1 is written onto the first
  item, over the fields of record 12, and the item whose identity token is \<^verbatim>\<open>1\<close>
  stays without any annotated field. Nothing is thrown and nothing is logged.
\<close>

theorem record_written_to_item_containing_its_iid:
  "map identity_token (document page_12_1) = [Some ''12'', Some ''1''] \<and>
   getCurrentMergeRequestIds (document page_12_1) = [''12'', ''1''] \<and>
   decimal (iid mr12) = ''12'' \<and> decimal (iid mr42) = ''1'' \<and>
   find_node (node_selectors mr42) (document page_12_1) = Some 0 \<and>
   fst (updateMergeRequestsNodes browser (script_with None) [mr12, mr42] page_12_1) = None \<and>
   errors (snd (updateMergeRequestsNodes browser (script_with None) [mr12, mr42] page_12_1)) = [] \<and>
   map AnnotatedState
     (document (snd (updateMergeRequestsNodes browser (script_with None) [mr12, mr42] page_12_1))) =
     [[Some ''ABC-1 tidy up'', Some ''1'',
       Some ''https://gitlab.example.com/g/p/-/merge_requests/1'',
       Some ''https://gitlab.example.com/g/p/-/merge_requests/1/diffs'',
       Some ''Ann'', Some ''opened'', Some ''PROJ-42-fix'', Some ''main'', Some ''false''],
      [None, None, None, None, None, None, None, None, None]]"
  by code_simp

text \<open>
  C6. A record that no attribute selector and no reference text matches is not skipped:
  the fifth selector, \<^verbatim>\<open>.merge-request\<close> alone, accepts the first merge-request item
  of the document. The record with iid 3 is written to the item whose token is
  \<^verbatim>\<open>1\<close>, and no diagnostic is logged.
\<close>

theorem unmatched_record_written_to_first_item:
  "getCurrentMergeRequestIds (document page_two) = [''1'', ''2''] \<and>
   decimal (iid mr3) = ''3'' \<and>
   map identity_token (document page_two) = [Some ''1'', Some ''2''] \<and>
   find_node (node_selectors mr3) (document page_two) = Some 0 \<and>
   fst (updateMergeRequestsNodes browser (script_with None) [mr3] page_two) = None \<and>
   errors (snd (updateMergeRequestsNodes browser (script_with None) [mr3] page_two)) = [] \<and>
   dataset (document (snd (updateMergeRequestsNodes browser (script_with None) [mr3] page_two)) ! 0) ''iid'' =
     Some ''3'' \<and>
   dataset (document (snd (updateMergeRequestsNodes browser (script_with None) [mr3] page_two)) ! 0) ''title'' =
     Some ''Other work''"
  by code_simp

text \<open>
  As soon as the document holds one merge-request item, the last selector finds a node for
  every record, and the branch that logs the missing node is never taken.
\<close>

lemma find_node_catch_all:
  assumes "i < length doc" "is_merge_request (doc ! i)"
  shows "find_node (node_selectors mergeRequest) doc \<noteq> None"
proof -
  have "first_index (selects AnyMergeRequest) doc \<noteq> None"
    using assms by (auto simp: first_index_None)
  then have "find_node [AnyMergeRequest] doc \<noteq> None"
    by (auto split: option.splits)
  then show ?thesis
    unfolding node_selectors_def by (auto split: option.splits)
qed

lemma NodeNotFound_only_without_items:
  assumes "i < length (document p)" "is_merge_request (document p ! i)"
  shows "errors (snd (updateMergeRequestNode pf cs mergeRequest p)) \<noteq>
         errors p @ [NodeNotFound (iid mergeRequest) (mr_id mergeRequest)]"
proof -
  from find_node_catch_all[OF assms]
  have j: "find_node (node_selectors mergeRequest) (document p) \<noteq> None" .
  show ?thesis
    by (rule updateMergeRequestNode_cases[where mr = mergeRequest and p = p and pf = pf and cs = cs])
       (use j in simp_all)
qed


section \<open>Info blocks over passes\<close>

















section \<open>Ticket URLs\<close>

lemma endsWith_trailing_slash: "endsWith (trailing_slash path) ''/''"
  by (simp add: trailing_slash_def endsWith_def)

text \<open>
  C9, as amended. When the configured base parses to a URL whose path is not opaque, and
  the \<^verbatim>\<open>pathname\<close> setter stores the two paths it is given as they are (no dot
  segment, no character to escape), the ticket URL is the base with its path ending in a
  slash, followed by \<^verbatim>\<open>browse/\<close> and the ticket id; scheme, authority, query and
  fragment are those of the base.
\<close>

theorem createJiraTicketUrl_on_hierarchical_base:
  assumes "new_URL pf (base_jira_url (preferences cs)) = Some u"
    and "\<not> opaque_path u"
    and "\<not> endsWith (pathname u) ''/'' \<longrightarrow> path_state pf (pathname u @ ''/'') = pathname u @ ''/''"
    and "path_state pf (trailing_slash (pathname u) @ ''browse/'' @ jiraTicketId) =
         trailing_slash (pathname u) @ ''browse/'' @ jiraTicketId"
  shows "createJiraTicketUrl pf cs jiraTicketId =
           Inr (protocol u @ (case authority u of None \<Rightarrow> [] | Some a \<Rightarrow> ''//'' @ a) @
                trailing_slash (pathname u) @ ''browse/'' @ jiraTicketId @ search u @ hash u) \<and>
         endsWith (trailing_slash (pathname u)) ''/''"
proof (cases "endsWith (pathname u) ''/''")
  case True
  then have ts: "trailing_slash (pathname u) = pathname u" by (simp add: trailing_slash_def)
  show ?thesis
    using assms(1,2,4) True unfolding ts
    by (simp add: createJiraTicketUrl_def set_pathname_def URL_toString_def Let_def)
next
  case False
  then have ts: "trailing_slash (pathname u) = pathname u @ ''/''" by (simp add: trailing_slash_def)
  have e: "endsWith (pathname u @ ''/'') ''/''" by (simp add: endsWith_def)
  show ?thesis
    using assms(1,2,3,4) False e unfolding ts
    by (simp add: createJiraTicketUrl_def set_pathname_def URL_toString_def Let_def)
qed

theorem createJiraTicketUrl_on_hierarchical_base_witness:
  "new_URL browser (base_jira_url (preferences (script_jira ''https://jira.example.com/jira''))) = Some jira_url \<and>
   \<not> opaque_path jira_url \<and>
   createJiraTicketUrl browser (script_jira ''https://jira.example.com/jira'') ''PROJ-42'' =
     Inr ''https://jira.example.com/jira/browse/PROJ-42''"
proof -
  have u: "new_URL browser (base_jira_url (preferences (script_jira ''https://jira.example.com/jira''))) = Some jira_url"
    by (simp add: browser_def script_jira_def)
  have o: "\<not> opaque_path jira_url" by (simp add: jira_url_def)
  have s1: "\<not> endsWith (pathname jira_url) ''/'' \<longrightarrow>
            path_state browser (pathname jira_url @ ''/'') = pathname jira_url @ ''/''"
    by (simp add: browser_def)
  have s2: "path_state browser (trailing_slash (pathname jira_url) @ ''browse/'' @ ''PROJ-42'') =
            trailing_slash (pathname jira_url) @ ''browse/'' @ ''PROJ-42''"
    by (simp add: browser_def)
  have v: "protocol jira_url @ (case authority jira_url of None \<Rightarrow> [] | Some a \<Rightarrow> ''//'' @ a) @
           trailing_slash (pathname jira_url) @ ''browse/'' @ ''PROJ-42'' @ search jira_url @ hash jira_url =
           ''https://jira.example.com/jira/browse/PROJ-42''"
    by code_simp
  from createJiraTicketUrl_on_hierarchical_base[OF u o s1 s2] u o show ?thesis unfolding v by blast
qed

text \<open>
  C9, as stated, fails for a base URL with an opaque path, which the setter leaves
  untouched, and for a base that is no URL at all, where the constructor throws.
\<close>

theorem createJiraTicketUrl_opaque_or_invalid_counterexample:
  "createJiraTicketUrl browser (script_jira ''mailto:jira@example.com'') ''PROJ-42'' =
     Inr ''mailto:jira@example.com'' \<and>
   createJiraTicketUrl browser (script_jira ''jira.example.com/jira'') ''PROJ-42'' = Inl TypeError"
  by code_simp


end
